theory Spec2Isabelle
  imports Complex_Main "HOL-Library.Sublist"
begin

section \<open>Data model\<close>

text \<open>
  The protocol of \<^verbatim>\<open>AdhE_assay_protocol.py\<close> drives a pipetting robot and keeps a ledger of
  the liquid volume in every well. Volumes, heights and distances are Python numbers; they are
  modelled as exact reals, so rounding of floating-point arithmetic is not part of the model.

  Every Python exception the modelled functions can raise is a value of \<open>error\<close>; the string
  is a short form of the message, or the name of the variable or key that is missing.
\<close>

datatype error =
    AssertionError string
  | NameError string
  | UnboundLocalError string
  | KeyError string
  | IndexError
  | AttributeError string
  | RuntimeError string
  | ValueError string
  | ZeroDivisionError

text \<open>
  A well of the labware library, with the attributes the protocol reads: \<open>parent\<close> is
  \<^verbatim>\<open>str(well.parent)\<close>, the display name of the plate that holds the well.
\<close>

record well =
  parent :: string
  well_name :: string
  depth :: real
  width :: real

text \<open>
  A point, and a pipetting target: a bare well, or a location (a point together with the well
  it belongs to). The coordinates of a location are taken relative to the centre of the bottom
  of its well, so \<^verbatim>\<open>well.bottom(z = h)\<close> is the point \<open>(0, 0, h)\<close> of that well.
\<close>

datatype point = Point real real real

datatype target = Well well | Location point well

text \<open>
  A plate of the labware library, with the two views the protocol reads: \<^verbatim>\<open>plate.rows()\<close>
  and \<^verbatim>\<open>plate.columns_by_name()\<close>.
\<close>

record labware =
  rows :: "well list list"
  columns_by_name :: "string \<rightharpoonup> well list"

text \<open>
  The ledger \<^verbatim>\<open>all_volumes\<close>: a dictionary from the display name of a plate to the pair of the
  plate and its dictionary from well names to volumes.
\<close>

type_synonym well_volumes = "string \<rightharpoonup> real"

type_synonym ledger = "string \<rightharpoonup> (labware \<times> well_volumes)"

section \<open>The volume ledger: \<^verbatim>\<open>adjust_well_volume\<close>\<close>

text \<open>Lines 635-640: a location is replaced by its well.\<close>

definition as_well :: "target \<Rightarrow> well" where
  "as_well t = (case t of Well w \<Rightarrow> w | Location p w \<Rightarrow> w)"

text \<open>Lines 643-645: the plate of the source and the first character of its well name.\<close>

definition source_info :: "ledger \<Rightarrow> well \<Rightarrow> error + (labware \<times> char)" where
  "source_info all_volumes source =
     (case all_volumes (parent source) of
        None \<Rightarrow> Inl (KeyError (parent source))
      | Some (source_plate, vols) \<Rightarrow>
          (case well_name source of
             [] \<Rightarrow> Inl IndexError
           | source_start_row # rest \<Rightarrow> Inr (source_plate, source_start_row)))"

text \<open>Line 649: the destination is the trash when the name of its plate holds \<^verbatim>\<open>Fixed Trash\<close>.\<close>

definition is_trash :: "well \<Rightarrow> bool" where
  "is_trash destination = sublist ''Fixed Trash'' (parent destination)"

text \<open>
  Lines 648-655: \<open>not_trash\<close>, \<open>destination_plate_rows\<close> and, when the destination is not the
  trash, \<open>destination_plate\<close> and \<open>destination_start_row\<close> (left unassigned for the trash).
\<close>

definition destination_info ::
  "ledger \<Rightarrow> well \<Rightarrow> error + (bool \<times> nat \<times> (labware \<times> char) option)" where
  "destination_info all_volumes destination =
     (if is_trash destination then Inr (False, 0, None)
      else
        (case all_volumes (parent destination) of
           None \<Rightarrow> Inl (KeyError (parent destination))
         | Some (destination_plate, vols) \<Rightarrow>
             (case well_name destination of
                [] \<Rightarrow> Inl IndexError
              | destination_start_row # rest \<Rightarrow>
                  Inr (True, length (rows destination_plate),
                       Some (destination_plate, destination_start_row)))))"

text \<open>The slice \<^verbatim>\<open>xs[start_idx::2]\<close>: every other element, from index \<open>start_idx\<close> on.\<close>

fun every_other :: "'a list \<Rightarrow> 'a list" where
  "every_other [] = []"
| "every_other [a] = [a]"
| "every_other (a # b # rest) = a # every_other rest"

definition slice_step2 :: "nat \<Rightarrow> 'a list \<Rightarrow> 'a list" where
  "slice_step2 start_idx xs = every_other (drop start_idx xs)"

text \<open>The dictionary \<^verbatim>\<open>start_dict = {'A':0, 'B':1}\<close>.\<close>

definition start_dict :: "char \<rightharpoonup> nat" where
  "start_dict = [CHR ''A'' \<mapsto> 0, CHR ''B'' \<mapsto> 1]"

text \<open>
  Lines 665-677, the source side of an 8-channel transfer: \<open>uptake_channels\<close> and
  \<open>source_well_list\<close>. The result is \<open>None\<close> when no branch assigns them. The message of the
  assertion for a 16-row plate names \<^verbatim>\<open>source_row\<close>, which nothing defines, so a failing
  assertion there ends in a \<open>NameError\<close> while its message is built.
\<close>

definition source_wells ::
  "labware \<Rightarrow> well \<Rightarrow> char \<Rightarrow> error + (int \<times> well list) option" where
  "source_wells source_plate source source_start_row =
     (let source_plate_rows = length (rows source_plate) in
      if source_plate_rows = 1 then Inr (Some (8, [source]))
      else if source_plate_rows = 8 then
        (if source_start_row \<noteq> CHR ''A''
         then Inl (AssertionError ''Multiwell transfers from an row plate must start at row A'')
         else
           (case columns_by_name source_plate (drop 1 (well_name source)) of
              None \<Rightarrow> Inl (KeyError (drop 1 (well_name source)))
            | Some col \<Rightarrow> Inr (Some (1, col))))
      else if source_plate_rows = 16 then
        (if source_start_row \<notin> set ''AB'' then Inl (NameError ''source_row'')
         else
           (case start_dict source_start_row of
              None \<Rightarrow> Inl (KeyError [source_start_row])
            | Some start_idx \<Rightarrow>
                (case columns_by_name source_plate (drop 1 (well_name source)) of
                   None \<Rightarrow> Inl (KeyError (drop 1 (well_name source)))
                 | Some col \<Rightarrow> Inr (Some (1, slice_step2 start_idx col)))))
      else Inr None)"

text \<open>
  Lines 679-691, the destination side: \<open>dispense_channels\<close> and \<open>destination_well_list\<close>. For
  the trash \<open>destination_plate_rows\<close> is 0 and no branch is taken.
\<close>

definition destination_wells ::
  "nat \<Rightarrow> (labware \<times> char) option \<Rightarrow> well \<Rightarrow> error + (int \<times> well list) option" where
  "destination_wells destination_plate_rows assigned destination =
     (if destination_plate_rows = 1 then Inr (Some (8, [destination]))
      else if destination_plate_rows = 8 then
        (case assigned of
           None \<Rightarrow> Inl (UnboundLocalError ''destination_start_row'')
         | Some (destination_plate, destination_start_row) \<Rightarrow>
             if destination_start_row \<noteq> CHR ''A''
             then Inl (AssertionError ''Multiwell transfers to an row plate must start at row A'')
             else
               (case columns_by_name destination_plate (drop 1 (well_name destination)) of
                  None \<Rightarrow> Inl (KeyError (drop 1 (well_name destination)))
                | Some col \<Rightarrow> Inr (Some (1, col))))
      else if destination_plate_rows = 16 then
        (case assigned of
           None \<Rightarrow> Inl (UnboundLocalError ''destination_start_row'')
         | Some (destination_plate, destination_start_row) \<Rightarrow>
             if destination_start_row \<notin> set ''AB'' then Inl (NameError ''destination_row'')
             else
               (case start_dict destination_start_row of
                  None \<Rightarrow> Inl (KeyError [destination_start_row])
                | Some start_idx \<Rightarrow>
                    (case columns_by_name destination_plate (drop 1 (well_name destination)) of
                       None \<Rightarrow> Inl (KeyError (drop 1 (well_name destination)))
                     | Some col \<Rightarrow> Inr (Some (1, slice_step2 start_idx col)))))
      else Inr None)"

text \<open>Lines 658-694: the channel counts and well lists of both sides.\<close>

definition channel_lists ::
  "int \<Rightarrow> labware \<Rightarrow> well \<Rightarrow> char \<Rightarrow> nat \<Rightarrow> (labware \<times> char) option \<Rightarrow> well \<Rightarrow>
     error + ((int \<times> well list) option \<times> (int \<times> well list) option)" where
  "channel_lists num_channels source_plate source source_start_row
       destination_plate_rows assigned destination =
     (if num_channels = 1 then Inr (Some (1, [source]), Some (1, [destination]))
      else if num_channels = 8 then
        (case source_wells source_plate source source_start_row of
           Inl e \<Rightarrow> Inl e
         | Inr src \<Rightarrow>
             (case destination_wells destination_plate_rows assigned destination of
                Inl e \<Rightarrow> Inl e
              | Inr dst \<Rightarrow> Inr (src, dst)))
      else Inl (ValueError ''Wrong number of channels. num_channels should be 1 or 8''))"

text \<open>
  The body of both loops of lines 697-705,
  \<^verbatim>\<open>all_volumes[key][1][w.well_name] += amount\<close> for each well \<open>w\<close> of a list; the first
  loop runs it with the amount negated (\<^verbatim>\<open>-=\<close>).
\<close>

fun add_to_wells :: "string \<Rightarrow> real \<Rightarrow> well list \<Rightarrow> ledger \<Rightarrow> error + ledger" where
  "add_to_wells key amount [] all_volumes = Inr all_volumes"
| "add_to_wells key amount (w # ws) all_volumes =
     (case all_volumes key of
        None \<Rightarrow> Inl (KeyError key)
      | Some (plate, vols) \<Rightarrow>
          (case vols (well_name w) of
             None \<Rightarrow> Inl (KeyError (well_name w))
           | Some old \<Rightarrow>
               add_to_wells key amount ws
                 (all_volumes(key \<mapsto> (plate, vols(well_name w \<mapsto> old + amount))))))"

definition adjust_well_volume ::
  "real \<Rightarrow> target \<Rightarrow> target \<Rightarrow> int \<Rightarrow> ledger \<Rightarrow> error + ledger" where
  "adjust_well_volume transfer_volume source0 destination0 num_channels all_volumes =
     (let source = as_well source0; destination = as_well destination0 in
      case source_info all_volumes source of
        Inl e \<Rightarrow> Inl e
      | Inr (source_plate, source_start_row) \<Rightarrow>
      (case destination_info all_volumes destination of
        Inl e \<Rightarrow> Inl e
      | Inr (not_trash, destination_plate_rows, assigned) \<Rightarrow>
      (case channel_lists num_channels source_plate source source_start_row
              destination_plate_rows assigned destination of
        Inl e \<Rightarrow> Inl e
      | Inr (src, dst) \<Rightarrow>
      (case src of
        None \<Rightarrow> Inl (UnboundLocalError ''source_well_list'')
      | Some (uptake_channels, source_well_list) \<Rightarrow>
      (case add_to_wells (parent source) (- (transfer_volume * of_int uptake_channels))
              source_well_list all_volumes of
        Inl e \<Rightarrow> Inl e
      | Inr all_volumes1 \<Rightarrow>
          if not_trash then
            (case dst of
               None \<Rightarrow> Inl (UnboundLocalError ''destination_well_list'')
             | Some (dispense_channels, destination_well_list) \<Rightarrow>
                 add_to_wells (parent destination) (transfer_volume * of_int dispense_channels)
                   destination_well_list all_volumes1)
          else Inr all_volumes1)))))"

text \<open>The tracked volume of a well, if the ledger has it.\<close>

definition tracked :: "ledger \<Rightarrow> string \<Rightarrow> string \<Rightarrow> real option" where
  "tracked all_volumes key n =
     (case all_volumes key of None \<Rightarrow> None | Some (plate, vols) \<Rightarrow> vols n)"

section \<open>The robot\<close>

text \<open>
  A pipette as the protocol reads it: its model name, its number of channels and the range of
  volumes it takes.
\<close>

record instrument =
  name :: string
  channels :: int
  min_volume :: real
  max_volume :: real

text \<open>
  The commands the protocol sends to the driver of the robot, with their arguments; a missing
  location or speed is \<open>None\<close>. The \<open>bool\<close> of a move is \<^verbatim>\<open>force_direct\<close>.
\<close>

datatype command =
    PickUpTip
  | DropTip
  | Aspirate real "target option" real
  | Dispense real "target option" real
  | BlowOut "target option"
  | TouchTip "real option"
  | MoveTo target bool
  | Delay real

text \<open>
  The state a function of the protocol works on: \<^verbatim>\<open>pipette.has_tip\<close> and
  \<^verbatim>\<open>pipette.current_volume\<close> of the pipette it was given, the commands sent so far, and the
  ledger \<^verbatim>\<open>all_volumes\<close>.
\<close>

record robot =
  has_tip :: bool
  current_volume :: real
  commands :: "command list"
  ledger :: ledger

text \<open>
  The driver is not part of the protocol. Each of its primitives is modelled as the command it
  records; picking up and dropping a tip set \<open>has_tip\<close>, an aspirate adds its volume to
  \<open>current_volume\<close>, a dispense takes it away, and dropping the tip empties it.
\<close>

definition pipette_pick_up_tip :: "robot \<Rightarrow> robot" where
  "pipette_pick_up_tip st = st\<lparr>has_tip := True, commands := commands st @ [PickUpTip]\<rparr>"

definition pipette_drop_tip :: "robot \<Rightarrow> robot" where
  "pipette_drop_tip st =
     st\<lparr>has_tip := False, current_volume := 0, commands := commands st @ [DropTip]\<rparr>"

definition pipette_aspirate :: "real \<Rightarrow> target option \<Rightarrow> real \<Rightarrow> robot \<Rightarrow> robot" where
  "pipette_aspirate volume location rate st =
     st\<lparr>current_volume := current_volume st + volume,
        commands := commands st @ [Aspirate volume location rate]\<rparr>"

definition pipette_dispense :: "real \<Rightarrow> target option \<Rightarrow> real \<Rightarrow> robot \<Rightarrow> robot" where
  "pipette_dispense volume location rate st =
     st\<lparr>current_volume := current_volume st - volume,
        commands := commands st @ [Dispense volume location rate]\<rparr>"

definition pipette_blow_out :: "target option \<Rightarrow> robot \<Rightarrow> robot" where
  "pipette_blow_out location st = st\<lparr>commands := commands st @ [BlowOut location]\<rparr>"

definition pipette_touch_tip :: "real option \<Rightarrow> robot \<Rightarrow> robot" where
  "pipette_touch_tip speed st = st\<lparr>commands := commands st @ [TouchTip speed]\<rparr>"

definition pipette_move_to :: "target \<Rightarrow> bool \<Rightarrow> robot \<Rightarrow> robot" where
  "pipette_move_to location force_direct st =
     st\<lparr>commands := commands st @ [MoveTo location force_direct]\<rparr>"

definition protocol_delay :: "real \<Rightarrow> robot \<Rightarrow> robot" where
  "protocol_delay seconds st = st\<lparr>commands := commands st @ [Delay seconds]\<rparr>"

text \<open>\<^verbatim>\<open>well.bottom(z)\<close>, \<^verbatim>\<open>well.top(z)\<close> and \<^verbatim>\<open>location.move(point)\<close> of the labware library.\<close>

definition bottom :: "well \<Rightarrow> real \<Rightarrow> target" where
  "bottom w h = Location (Point 0 0 h) w"

definition top :: "well \<Rightarrow> real \<Rightarrow> target" where
  "top w h = Location (Point 0 0 (depth w + h)) w"

fun move :: "target \<Rightarrow> point \<Rightarrow> target" where
  "move (Location (Point a b c) w) (Point dx dy dz) = Location (Point (a + dx) (b + dy) (c + dz)) w"
| "move (Well w) (Point dx dy dz) = Location (Point dx dy dz) w"

section \<open>Edge offset: \<^verbatim>\<open>get_well_edge_offset\<close>\<close>

text \<open>Lines 215-217: tip diameter and tip slope by pipette model.\<close>

definition tip_dict :: "string \<rightharpoonup> real \<times> real" where
  "tip_dict = [''p20_single_gen2'' \<mapsto> (0.90, 0.083), ''p300_multi_gen2'' \<mapsto> (1.07, 0.093)]"

text \<open>
  Lines 197-234. The function reads \<^verbatim>\<open>well.depth\<close> first, which a location does not have.
  A model name missing from \<open>tip_dict\<close> raises a \<open>KeyError\<close> that is caught and printed, which
  leaves \<open>PIPETTE_TIP_WIDTH\<close> unassigned (\<open>None\<close>) until line 233 reads it.
\<close>

definition get_well_edge_offset :: "instrument \<Rightarrow> target \<Rightarrow> real \<Rightarrow> error + real" where
  "get_well_edge_offset pipette well height_above_bottom =
     (case well of
        Location p w \<Rightarrow> Inl (AttributeError ''depth'')
      | Well w \<Rightarrow>
          (let EXTRA_OFFSET = 0.2;
               height_below_well_top = depth w - height_above_bottom
           in
           if \<not> height_below_well_top > 0
           then Inl (AssertionError ''height_above_bottom is too high, pipette tip above well top'')
           else
             (let PIPETTE_TIP_WIDTH =
                    (case tip_dict (name pipette) of
                       None \<Rightarrow> None
                     | Some (diameter, slope) \<Rightarrow> Some (diameter + height_below_well_top * slope));
                  well_diameter = width w
              in
              case PIPETTE_TIP_WIDTH of
                None \<Rightarrow> Inl (UnboundLocalError ''PIPETTE_TIP_WIDTH'')
              | Some tip_width \<Rightarrow> Inr ((well_diameter - tip_width) / 2 + EXTRA_OFFSET))))"

section \<open>Dispensing off centre: \<^verbatim>\<open>offset_dispense\<close>\<close>

text \<open>Lines 580-596: the lateral offsets of a direction.\<close>

definition direction_offsets :: "string \<Rightarrow> real \<Rightarrow> error + (real \<times> real)" where
  "direction_offsets offset_direction offset_distance =
     (if offset_direction = ''center'' then Inr (0, 0)
      else if offset_direction = ''right'' then Inr (offset_distance, 0)
      else if offset_direction = ''left'' then Inr (- offset_distance, 0)
      else if offset_direction = ''top'' then Inr (0, offset_distance)
      else if offset_direction = ''bottom'' then Inr (0, - offset_distance)
      else Inl (RuntimeError ''Unknown well destination location''))"

text \<open>Lines 600-621: the motion of one dispense.\<close>

definition dispense_motion ::
  "well \<Rightarrow> real \<Rightarrow> real \<Rightarrow> real \<Rightarrow> real \<Rightarrow> bool \<Rightarrow> real \<Rightarrow> bool \<Rightarrow> real \<Rightarrow> bool \<Rightarrow>
     robot \<Rightarrow> robot" where
  "dispense_motion w transfer_volume x_offset y_offset dispense_height do_blowout
       dest_blowout_height do_touch_tip dispense_rate inspect_tips st =
     (let st1 = (if inspect_tips
                 then protocol_delay 3 (pipette_move_to (top w 10) False st)
                 else st);
          st2 = pipette_move_to (bottom w dispense_height) False st1;
          st3 = pipette_move_to (move (bottom w dispense_height) (Point x_offset y_offset 0))
                  True st2;
          st4 = pipette_dispense transfer_volume None dispense_rate st3;
          st5 = pipette_move_to (bottom w dispense_height) True st4;
          st6 = (if do_blowout
                 then
                   (let b1 = pipette_move_to (bottom w dest_blowout_height) False st5;
                        b2 = pipette_move_to
                               (move (bottom w dispense_height) (Point x_offset y_offset 0))
                               True b1;
                        b3 = pipette_blow_out None b2
                    in pipette_move_to (bottom w dest_blowout_height) True b3)
                 else st5)
      in if do_touch_tip then pipette_touch_tip (Some 20) st6 else st6)"

text \<open>
  Lines 553-621. The arguments are in the order of the Python signature. A custom offset
  distance of \<open>None\<close> or 0 is false in the test of line 573.
\<close>

definition offset_dispense ::
  "instrument \<Rightarrow> target \<Rightarrow> real \<Rightarrow> string \<Rightarrow> real option \<Rightarrow> real \<Rightarrow> bool \<Rightarrow> real \<Rightarrow> bool \<Rightarrow>
     real \<Rightarrow> bool \<Rightarrow> robot \<Rightarrow> error + robot" where
  "offset_dispense pipette well transfer_volume offset_direction custom_offset_distance
       dispense_height do_blowout dest_blowout_height do_touch_tip dispense_rate inspect_tips st =
     (case well of
        Location p w \<Rightarrow> Inl (AssertionError ''Well must be a well object'')
      | Well w \<Rightarrow>
          (case (if custom_offset_distance \<noteq> None \<and> custom_offset_distance \<noteq> Some 0
                 then Inr (the custom_offset_distance)
                 else get_well_edge_offset pipette well dispense_height) of
             Inl e \<Rightarrow> Inl e
           | Inr offset_distance \<Rightarrow>
               (case direction_offsets offset_direction offset_distance of
                  Inl e \<Rightarrow> Inl e
                | Inr (x_offset, y_offset) \<Rightarrow>
                    Inr (dispense_motion w transfer_volume x_offset y_offset dispense_height
                           do_blowout dest_blowout_height do_touch_tip dispense_rate
                           inspect_tips st))))"

section \<open>Transfers: \<^verbatim>\<open>custom_transfer\<close>\<close>

text \<open>Python's \<^verbatim>\<open>int(x)\<close> of a float: truncation towards zero.\<close>

definition py_int :: "real \<Rightarrow> int" where
  "py_int r = (if 0 \<le> r then \<lfloor>r\<rfloor> else \<lceil>r\<rceil>)"

text \<open>Lines 463-468: wetting the tip once at the source.\<close>

definition prewet ::
  "instrument \<Rightarrow> target \<Rightarrow> real \<Rightarrow> bool \<Rightarrow> robot \<Rightarrow> robot" where
  "prewet pipette source source_blowout_height do_blowout st =
     (let st1 = pipette_aspirate (max_volume pipette) (Some source) 1 st;
          st2 = pipette_dispense (max_volume pipette) (Some source) 1 st1;
          st3 = (if do_blowout
                 then pipette_blow_out (Some (bottom (as_well source) source_blowout_height)) st2
                 else st2)
      in pipette_touch_tip None st3)"

text \<open>
  Lines 471-489, the loop of the single strategy. The call of \<open>offset_dispense\<close> leaves
  \<^verbatim>\<open>custom_offset_distance\<close> and \<^verbatim>\<open>dest_blowout_height\<close> at their defaults \<open>None\<close> and 8.
\<close>

fun single_transfers ::
  "instrument \<Rightarrow> real \<Rightarrow> target \<Rightarrow> real \<Rightarrow> string \<Rightarrow> bool \<Rightarrow> bool \<Rightarrow> real \<Rightarrow> bool \<Rightarrow>
     target list \<Rightarrow> robot \<Rightarrow> error + robot" where
  "single_transfers pipette transfer_volume source dispense_height offset_direction
       do_blowout do_touch_tip dispense_rate inspect_tips [] st = Inr st"
| "single_transfers pipette transfer_volume source dispense_height offset_direction
       do_blowout do_touch_tip dispense_rate inspect_tips (well # rest) st =
     (let st1 = pipette_aspirate transfer_volume (Some source) 1 st;
          st2 = pipette_touch_tip None st1
      in
      case offset_dispense pipette well transfer_volume offset_direction None dispense_height
             do_blowout 8 do_touch_tip dispense_rate inspect_tips st2 of
        Inl e \<Rightarrow> Inl e
      | Inr st3 \<Rightarrow>
          (case adjust_well_volume transfer_volume source well (channels pipette) (ledger st3) of
             Inl e \<Rightarrow> Inl e
           | Inr all_volumes \<Rightarrow>
               single_transfers pipette transfer_volume source dispense_height offset_direction
                 do_blowout do_touch_tip dispense_rate inspect_tips rest
                 (st3\<lparr>ledger := all_volumes\<rparr>)))"

text \<open>
  Lines 516-519: up to \<open>n\<close> wells are popped from the end of the working list and appended to
  \<open>temp_transfer_list\<close>.
\<close>

fun pop_wells :: "nat \<Rightarrow> 'a list \<Rightarrow> 'a list \<Rightarrow> 'a list \<times> 'a list" where
  "pop_wells 0 working_destination_list temp_transfer_list =
     (temp_transfer_list, working_destination_list)"
| "pop_wells (Suc n) working_destination_list temp_transfer_list =
     (if length working_destination_list > 0
      then pop_wells n (butlast working_destination_list)
             (temp_transfer_list @ [last working_destination_list])
      else pop_wells n working_destination_list temp_transfer_list)"

text \<open>Lines 530-547: the dispenses of one batch, never with a blow-out.\<close>

fun distribute_dispenses ::
  "instrument \<Rightarrow> real \<Rightarrow> target \<Rightarrow> real \<Rightarrow> string \<Rightarrow> bool \<Rightarrow> real \<Rightarrow> bool \<Rightarrow>
     target list \<Rightarrow> robot \<Rightarrow> error + robot" where
  "distribute_dispenses pipette transfer_volume source dispense_height offset_direction
       do_touch_tip dispense_rate inspect_tips [] st = Inr st"
| "distribute_dispenses pipette transfer_volume source dispense_height offset_direction
       do_touch_tip dispense_rate inspect_tips (well # rest) st =
     (case offset_dispense pipette well transfer_volume offset_direction None dispense_height
             False 8 do_touch_tip dispense_rate inspect_tips st of
        Inl e \<Rightarrow> Inl e
      | Inr st1 \<Rightarrow>
          (case adjust_well_volume transfer_volume source well (channels pipette) (ledger st1) of
             Inl e \<Rightarrow> Inl e
           | Inr all_volumes \<Rightarrow>
               distribute_dispenses pipette transfer_volume source dispense_height
                 offset_direction do_touch_tip dispense_rate inspect_tips rest
                 (st1\<lparr>ledger := all_volumes\<rparr>)))"

text \<open>
  Lines 523-547: one batch, given its \<open>temp_transfer_list\<close>. The aspirate takes what the
  batch needs and the carry-over, less what the tip already holds.
\<close>

definition distribute_batch ::
  "instrument \<Rightarrow> real \<Rightarrow> target \<Rightarrow> real \<Rightarrow> string \<Rightarrow> bool \<Rightarrow> real \<Rightarrow> bool \<Rightarrow>
     target list \<Rightarrow> robot \<Rightarrow> error + robot" where
  "distribute_batch pipette transfer_volume source dispense_height offset_direction
       do_touch_tip dispense_rate inspect_tips temp_transfer_list st =
     (let carryover = 0.1;
          aspirate_volume =
            transfer_volume * real (length temp_transfer_list) + max_volume pipette * carryover;
          st1 = pipette_aspirate (aspirate_volume - current_volume st) (Some source) 1 st;
          st2 = (if do_touch_tip then pipette_touch_tip None st1 else st1)
      in distribute_dispenses pipette transfer_volume source dispense_height offset_direction
           do_touch_tip dispense_rate inspect_tips temp_transfer_list st2)"

text \<open>
  Lines 513-547: the loop over the working list. Nothing bounds the number of its rounds, so
  the result is \<open>None\<close> when it does not end.
\<close>

partial_function (option) distribute_loop ::
  "instrument \<Rightarrow> real \<Rightarrow> target \<Rightarrow> real \<Rightarrow> string \<Rightarrow> bool \<Rightarrow> real \<Rightarrow> bool \<Rightarrow> int \<Rightarrow>
     target list \<Rightarrow> robot \<Rightarrow> (error + robot) option" where
  "distribute_loop pipette transfer_volume source dispense_height offset_direction
       do_touch_tip dispense_rate inspect_tips max_wells_per_aspirate
       working_destination_list st =
     (if length working_destination_list > 0
      then
        (case pop_wells (nat max_wells_per_aspirate) working_destination_list [] of
           (temp_transfer_list, remaining) \<Rightarrow>
             (case distribute_batch pipette transfer_volume source dispense_height
                     offset_direction do_touch_tip dispense_rate inspect_tips
                     temp_transfer_list st of
                Inl e \<Rightarrow> Some (Inl e)
              | Inr st1 \<Rightarrow>
                  distribute_loop pipette transfer_volume source dispense_height
                    offset_direction do_touch_tip dispense_rate inspect_tips
                    max_wells_per_aspirate remaining st1))
      else Some (Inr st))"

text \<open>
  Lines 500-510: the number of wells one aspirate fills. Both divisions of the even split are
  Python's true division, which raises on a zero divisor.
\<close>

definition wells_per_aspirate :: "instrument \<Rightarrow> real \<Rightarrow> bool \<Rightarrow> nat \<Rightarrow> error + int" where
  "wells_per_aspirate pipette transfer_volume evenly_split_transfers total_wells =
     (let carryover = 0.1 in
      if transfer_volume = 0 then Inl ZeroDivisionError
      else
        (let max_wells_per_aspirate =
               py_int ((max_volume pipette * (1 - carryover)) / transfer_volume)
         in
         if evenly_split_transfers then
           (if max_wells_per_aspirate = 0 then Inl ZeroDivisionError
            else
              (let num_transfer_groups =
                     \<lceil>real total_wells / real_of_int max_wells_per_aspirate\<rceil>
               in
               if num_transfer_groups = 0 then Inl ZeroDivisionError
               else Inr \<lceil>real total_wells / real_of_int num_transfer_groups\<rceil>))
         else Inr max_wells_per_aspirate))"

text \<open>
  Lines 411-551. The arguments are in the order of the Python signature;
  \<^verbatim>\<open>dest_blowout_height\<close> is accepted and never used. The result is \<open>None\<close> when the loop of
  the distribute strategy does not end.
\<close>

definition custom_transfer ::
  "instrument \<Rightarrow> real \<Rightarrow> target \<Rightarrow> target list \<Rightarrow> real \<Rightarrow> real \<Rightarrow> real \<Rightarrow> string \<Rightarrow> bool \<Rightarrow>
     bool \<Rightarrow> bool \<Rightarrow> bool \<Rightarrow> string \<Rightarrow> real \<Rightarrow> bool \<Rightarrow> bool \<Rightarrow> robot \<Rightarrow>
     (error + robot) option" where
  "custom_transfer pipette transfer_volume source0 destination_list source_blowout_height
       dest_blowout_height dispense_height offset_direction prewet_tip drop_tip do_blowout
       do_touch_tip transfer_type dispense_rate inspect_tips evenly_split_transfers st =
     (if \<not> (transfer_volume \<le> max_volume pipette \<and> transfer_volume \<ge> min_volume pipette)
      then Some (Inl (AssertionError ''Transfer volume out of range''))
      else
        (let source = (case source0 of Well w \<Rightarrow> bottom w 1 | Location p w \<Rightarrow> source0);
             st1 = (if \<not> has_tip st then pipette_pick_up_tip st else st);
             st2 = (if prewet_tip
                    then prewet pipette source source_blowout_height do_blowout st1
                    else st1)
         in
         if transfer_type = ''single'' then
           (case single_transfers pipette transfer_volume source dispense_height
                   offset_direction do_blowout do_touch_tip dispense_rate inspect_tips
                   destination_list st2 of
              Inl e \<Rightarrow> Some (Inl e)
            | Inr st3 \<Rightarrow> Some (Inr (if drop_tip then pipette_drop_tip st3 else st3)))
         else if transfer_type = ''distribute'' then
           (case wells_per_aspirate pipette transfer_volume evenly_split_transfers
                   (length destination_list) of
              Inl e \<Rightarrow> Some (Inl e)
            | Inr max_wells_per_aspirate \<Rightarrow>
                (case distribute_loop pipette transfer_volume source dispense_height
                        offset_direction do_touch_tip dispense_rate inspect_tips
                        max_wells_per_aspirate destination_list st2 of
                   None \<Rightarrow> None
                 | Some (Inl e) \<Rightarrow> Some (Inl e)
                 | Some (Inr st3) \<Rightarrow>
                     Some (Inr (if drop_tip then pipette_drop_tip st3 else st3))))
         else Some (Inr st2)))"

section \<open>Serial dilution: \<^verbatim>\<open>serial_dilution\<close>\<close>

text \<open>An element of a list by a non-negative index, as Python reads it.\<close>

definition index :: "'a list \<Rightarrow> nat \<Rightarrow> error + 'a" where
  "index xs i = (if i < length xs then Inr (xs ! i) else Inl IndexError)"

text \<open>
  Lines 373-377 and 391-395: the cycles of a mix in a well; they differ in the rate of the
  aspirate only.
\<close>

fun mix_cycles :: "nat \<Rightarrow> real \<Rightarrow> well \<Rightarrow> real \<Rightarrow> real \<Rightarrow> robot \<Rightarrow> robot" where
  "mix_cycles 0 mix_volume w rate dispense_height st = st"
| "mix_cycles (Suc n) mix_volume w rate dispense_height st =
     mix_cycles n mix_volume w rate dispense_height
       (protocol_delay 0.5
          (pipette_dispense mix_volume (Some (bottom w dispense_height)) 10
             (pipette_aspirate mix_volume (Some (Well w)) rate st)))"

text \<open>Lines 370-381: the mix in the first well before the dilution.\<close>

definition mix_first_well ::
  "real \<Rightarrow> well list \<Rightarrow> int \<Rightarrow> real \<Rightarrow> real \<Rightarrow> bool \<Rightarrow> robot \<Rightarrow> error + robot" where
  "mix_first_well mix_volume wells mix_steps dispense_height blowout_height do_blowout st =
     (case wells of
        [] \<Rightarrow>
          (if 0 < mix_steps \<or> do_blowout then Inl IndexError
           else Inr (pipette_touch_tip (Some 20) st))
      | w # rest \<Rightarrow>
          (let st1 = mix_cycles (nat mix_steps) mix_volume w 1 dispense_height st;
               st2 = (if do_blowout
                      then pipette_blow_out (Some (bottom w blowout_height)) st1
                      else st1)
           in Inr (pipette_touch_tip (Some 20) st2)))"

text \<open>Lines 385-403: the body of the loop, for one index \<open>i\<close>.\<close>

definition dilution_step ::
  "instrument \<Rightarrow> real \<Rightarrow> real \<Rightarrow> well list \<Rightarrow> int \<Rightarrow> real \<Rightarrow> real \<Rightarrow> bool \<Rightarrow> bool \<Rightarrow> nat \<Rightarrow>
     robot \<Rightarrow> error + robot" where
  "dilution_step pipette transfer_volume mix_volume wells mix_steps dispense_height
       blowout_height do_blowout always_get_new_tip i st =
     (case index wells i of
        Inl e \<Rightarrow> Inl e
      | Inr from_well \<Rightarrow>
          (case index wells (i + 1) of
             Inl e \<Rightarrow> Inl e
           | Inr to_well \<Rightarrow>
               (let st1 = pipette_aspirate transfer_volume (Some (Well from_well)) 1 st;
                    st2 = pipette_dispense transfer_volume (Some (Well to_well)) 10 st1
                in
                case adjust_well_volume transfer_volume (Well from_well) (Well to_well)
                       (channels pipette) (ledger st2) of
                  Inl e \<Rightarrow> Inl e
                | Inr all_volumes \<Rightarrow>
                    (let st3 = mix_cycles (nat mix_steps) mix_volume to_well 10 dispense_height
                                 (st2\<lparr>ledger := all_volumes\<rparr>);
                         st4 = (if do_blowout
                                then pipette_blow_out (Some (bottom to_well blowout_height)) st3
                                else st3);
                         st5 = pipette_touch_tip (Some 20) st4
                     in
                     Inr (if always_get_new_tip
                          then pipette_pick_up_tip (pipette_drop_tip st5)
                          else st5)))))"

text \<open>Lines 384-403: the loop over the indices \<^verbatim>\<open>range(len(wells)-1)\<close>.\<close>

fun dilution_steps ::
  "instrument \<Rightarrow> real \<Rightarrow> real \<Rightarrow> well list \<Rightarrow> int \<Rightarrow> real \<Rightarrow> real \<Rightarrow> bool \<Rightarrow> bool \<Rightarrow>
     nat list \<Rightarrow> robot \<Rightarrow> error + robot" where
  "dilution_steps pipette transfer_volume mix_volume wells mix_steps dispense_height
       blowout_height do_blowout always_get_new_tip [] st = Inr st"
| "dilution_steps pipette transfer_volume mix_volume wells mix_steps dispense_height
       blowout_height do_blowout always_get_new_tip (i # indices) st =
     (case dilution_step pipette transfer_volume mix_volume wells mix_steps dispense_height
             blowout_height do_blowout always_get_new_tip i st of
        Inl e \<Rightarrow> Inl e
      | Inr st1 \<Rightarrow>
          dilution_steps pipette transfer_volume mix_volume wells mix_steps dispense_height
            blowout_height do_blowout always_get_new_tip indices st1)"

text \<open>
  Lines 347-409. The arguments are in the order of the Python signature, after the well
  \<open>trash\<close> that the function reads from the enclosing scope. The variable \<open>i\<close> of the loop
  is read again after the loop (lines 406-408); it is unassigned when the loop had no round.
\<close>

definition serial_dilution ::
  "well \<Rightarrow> instrument \<Rightarrow> real \<Rightarrow> real \<Rightarrow> well list \<Rightarrow> int \<Rightarrow> real \<Rightarrow> real \<Rightarrow> bool \<Rightarrow> bool \<Rightarrow>
     bool \<Rightarrow> robot \<Rightarrow> error + robot" where
  "serial_dilution trash pipette transfer_volume mix_volume wells mix_steps dispense_height
       blowout_height mix_before do_blowout always_get_new_tip st =
     (let st1 = (if \<not> has_tip st then pipette_pick_up_tip st else st) in
      case (if mix_before
            then mix_first_well mix_volume wells mix_steps dispense_height blowout_height
                   do_blowout st1
            else Inr st1) of
        Inl e \<Rightarrow> Inl e
      | Inr st2 \<Rightarrow>
          (let indices = [0..<length wells - 1] in
           case dilution_steps pipette transfer_volume mix_volume wells mix_steps
                  dispense_height blowout_height do_blowout always_get_new_tip indices st2 of
             Inl e \<Rightarrow> Inl e
           | Inr st3 \<Rightarrow>
               (case (if indices = [] then None else Some (last indices)) of
                  None \<Rightarrow> Inl (UnboundLocalError ''i'')
                | Some i \<Rightarrow>
                    (case index wells (i + 1) of
                       Inl e \<Rightarrow> Inl e
                     | Inr last_well \<Rightarrow>
                         (let st4 = pipette_aspirate transfer_volume (Some (Well last_well)) 1 st3
                          in
                          case adjust_well_volume transfer_volume (Well last_well) (Well trash)
                                 (channels pipette) (ledger st4) of
                            Inl e \<Rightarrow> Inl e
                          | Inr all_volumes \<Rightarrow>
                              Inr (pipette_drop_tip (st4\<lparr>ledger := all_volumes\<rparr>)))))))"

section \<open>Observations on the ledger\<close>

text \<open>The amount \<open>v\<close> at the well \<open>w\<close> of the ledger, and nothing at any other well.\<close>

definition credit :: "well \<Rightarrow> real \<Rightarrow> string \<Rightarrow> string \<Rightarrow> real" where
  "credit w v key n = (if key = parent w \<and> n = well_name w then v else 0)"

text \<open>The sum of the tracked volumes of a plate.\<close>

definition plate_total :: "ledger \<Rightarrow> string \<Rightarrow> real" where
  "plate_total all_volumes key =
     (case all_volumes key of
        None \<Rightarrow> 0
      | Some (plate, vols) \<Rightarrow> (\<Sum>n \<in> dom vols. the (vols n)))"

text \<open>Every plate of the ledger tracks finitely many wells.\<close>

definition finite_ledger :: "ledger \<Rightarrow> bool" where
  "finite_ledger all_volumes =
     (\<forall>key plate vols. all_volumes key = Some (plate, vols) \<longrightarrow> finite (dom vols))"

text \<open>
  A sequence of single-channel adjustments, each given by its volume, source and destination,
  applied in order; the first error ends it.
\<close>

fun adjust_all :: "(real \<times> target \<times> target) list \<Rightarrow> ledger \<Rightarrow> error + ledger" where
  "adjust_all [] all_volumes = Inr all_volumes"
| "adjust_all ((v, s, d) # ts) all_volumes =
     (case adjust_well_volume v s d 1 all_volumes of
        Inl e \<Rightarrow> Inl e
      | Inr all_volumes1 \<Rightarrow> adjust_all ts all_volumes1)"

text \<open>
  The ledger \<open>result\<close> is the ledger \<open>all_volumes\<close> with \<open>delta key n\<close> added to the volume
  of every tracked well \<open>n\<close> of every plate \<open>key\<close>; no well is gained or lost.
\<close>

definition shifted :: "ledger \<Rightarrow> (string \<Rightarrow> string \<Rightarrow> real) \<Rightarrow> ledger \<Rightarrow> bool" where
  "shifted all_volumes delta result =
     (\<forall>key n. tracked result key n =
        map_option (\<lambda>vol. vol + delta key n) (tracked all_volumes key n))"

text \<open>The amount \<open>v\<close> at each well of the list \<open>ws\<close> on the plate \<open>key\<close>.\<close>

definition credit_each :: "string \<Rightarrow> well list \<Rightarrow> real \<Rightarrow> string \<Rightarrow> string \<Rightarrow> real" where
  "credit_each key ws v k n = (if k = key \<and> n \<in> well_name ` set ws then v else 0)"

text \<open>Every column of a plate has one well for each row, under names of their own.\<close>

definition well_formed :: "labware \<Rightarrow> bool" where
  "well_formed plate =
     (\<forall>c col. columns_by_name plate c = Some col \<longrightarrow>
        length col = length (rows plate) \<and> distinct (map well_name col))"

text \<open>
  The fan-out of 8 channels at the well \<open>w\<close> of a plate, in the words of the specification:
  on a plate of one row the well \<open>w\<close> gets 8 times \<open>v\<close>; on a plate of 8 rows \<open>w\<close> is in row A
  and each of the 8 wells of its column gets \<open>v\<close>; on a plate of 16 rows \<open>w\<close> is in row A or
  B and each of the 8 wells of every other row of its column, from the row of \<open>w\<close> on, gets
  \<open>v\<close>. No other well changes.
\<close>

definition fanned :: "ledger \<Rightarrow> real \<Rightarrow> labware \<Rightarrow> well \<Rightarrow> ledger \<Rightarrow> bool" where
  "fanned all_volumes v plate w result =
     ((length (rows plate) = 1 \<and> shifted all_volumes (credit w (8 * v)) result) \<or>
      (length (rows plate) = 8 \<and> take 1 (well_name w) = ''A'' \<and>
         (\<exists>col. columns_by_name plate (drop 1 (well_name w)) = Some col \<and> length col = 8 \<and>
            shifted all_volumes (credit_each (parent w) col v) result)) \<or>
      (length (rows plate) = 16 \<and>
         (\<exists>i col. (take 1 (well_name w) = ''A'' \<and> i = 0 \<or> take 1 (well_name w) = ''B'' \<and> i = 1) \<and>
            columns_by_name plate (drop 1 (well_name w)) = Some col \<and> length col = 16 \<and>
            shifted all_volumes
              (credit_each (parent w) (map (\<lambda>j. col ! (i + 2 * j)) [0..<8]) v) result)))"

text \<open>
  The multiplier and the well list that lines 665-677 and 679-691 assign for a well \<open>w\<close>
  whose name is the row letter \<open>c\<close> before the column name \<open>cs\<close>.
\<close>

definition addressed :: "labware \<Rightarrow> well \<Rightarrow> char \<Rightarrow> string \<Rightarrow> int \<Rightarrow> well list \<Rightarrow> bool" where
  "addressed plate w c cs up wl =
     ((length (rows plate) = 1 \<and> up = 8 \<and> wl = [w]) \<or>
      (length (rows plate) = 8 \<and> c = CHR ''A'' \<and> up = 1 \<and> columns_by_name plate cs = Some wl) \<or>
      (length (rows plate) = 16 \<and> up = 1 \<and>
         (\<exists>i col. (c = CHR ''A'' \<and> i = 0 \<or> c = CHR ''B'' \<and> i = 1) \<and>
            columns_by_name plate cs = Some col \<and> wl = slice_step2 i col)))"

text \<open>
  The start of an 8-channel transfer at the well \<open>w\<close> is aligned with the plate: any well of
  a plate of one row, a well of row A in a column of a plate of 8 rows, a well of row A or B
  in a column of a plate of 16 rows.
\<close>

definition aligned :: "labware \<Rightarrow> well \<Rightarrow> bool" where
  "aligned plate w =
     ((length (rows plate) = 1 \<and> well_name w \<noteq> []) \<or>
      (length (rows plate) = 8 \<and> take 1 (well_name w) = ''A'' \<and>
         columns_by_name plate (drop 1 (well_name w)) \<noteq> None) \<or>
      (length (rows plate) = 16 \<and>
         (take 1 (well_name w) = ''A'' \<or> take 1 (well_name w) = ''B'') \<and>
         columns_by_name plate (drop 1 (well_name w)) \<noteq> None))"

text \<open>The volumes of a plate track the well \<open>w\<close> and every well of the column of \<open>w\<close>.\<close>

definition covered :: "well_volumes \<Rightarrow> labware \<Rightarrow> well \<Rightarrow> bool" where
  "covered vols plate w =
     (vols (well_name w) \<noteq> None \<and>
      (\<forall>col x. columns_by_name plate (drop 1 (well_name w)) = Some col \<longrightarrow> x \<in> set col \<longrightarrow>
         vols (well_name x) \<noteq> None))"

section \<open>Observations on the distribute strategy\<close>

text \<open>
  A list cut into batches of \<open>n\<close> elements, the last one possibly shorter; no batch at all
  for \<open>n = 0\<close>.
\<close>

function batches :: "nat \<Rightarrow> 'a list \<Rightarrow> 'a list list" where
  "batches n xs = (if xs = [] \<or> n = 0 then [] else take n xs # batches n (drop n xs))"
  by pat_completeness auto
termination
  by (relation "measure (\<lambda>(n, xs). length xs)") auto

declare batches.simps [simp del]

text \<open>The batches of a list run one after the other; the first error ends the run.\<close>

fun run_batches ::
  "instrument \<Rightarrow> real \<Rightarrow> target \<Rightarrow> real \<Rightarrow> string \<Rightarrow> bool \<Rightarrow> real \<Rightarrow> bool \<Rightarrow>
     target list list \<Rightarrow> robot \<Rightarrow> error + robot" where
  "run_batches pipette transfer_volume source dispense_height offset_direction do_touch_tip
       dispense_rate inspect_tips [] st = Inr st"
| "run_batches pipette transfer_volume source dispense_height offset_direction do_touch_tip
       dispense_rate inspect_tips (b # bs) st =
     (case distribute_batch pipette transfer_volume source dispense_height offset_direction
             do_touch_tip dispense_rate inspect_tips b st of
        Inl e \<Rightarrow> Inl e
      | Inr st1 \<Rightarrow>
          run_batches pipette transfer_volume source dispense_height offset_direction
            do_touch_tip dispense_rate inspect_tips bs st1)"

section \<open>Example labware\<close>

text \<open>
  A plate laid out as a grid, as the labware library names its wells: the well of row letter
  \<open>r\<close> and column name \<open>c\<close> is \<open>r # c\<close>, and a column lists its wells from the first row down.
\<close>

definition grid_well :: "string \<Rightarrow> real \<Rightarrow> real \<Rightarrow> char \<Rightarrow> string \<Rightarrow> well" where
  "grid_well key dp wd r c = \<lparr>parent = key, well_name = r # c, depth = dp, width = wd\<rparr>"

definition grid_plate :: "string \<Rightarrow> real \<Rightarrow> real \<Rightarrow> string \<Rightarrow> string list \<Rightarrow> labware" where
  "grid_plate key dp wd letters cols =
     \<lparr>rows = map (\<lambda>r. map (grid_well key dp wd r) cols) letters,
      columns_by_name =
        (\<lambda>c. if c \<in> set cols then Some (map (\<lambda>r. grid_well key dp wd r c) letters) else None)\<rparr>"

text \<open>Lines 729-731: every well of a plate at volume 0.\<close>

definition zero_volumes :: "labware \<Rightarrow> well_volumes" where
  "zero_volumes plate = map_of (map (\<lambda>w. (well_name w, 0)) (concat (rows plate)))"

text \<open>
  The three plates of the protocol under the names they have in \<^verbatim>\<open>all_volumes\<close>, cut down to
  their first two columns: a reservoir of one row, a deep-well plate of 8 rows and an assay
  plate of 16 rows.
\<close>

definition reservoir_key :: string where
  "reservoir_key = ''NEST 12 Well Reservoir 15 mL on 2''"

definition deepwell_key :: string where
  "deepwell_key = ''USA Scientific 96 Deep Well Plate 2.4 mL on 5''"

definition assay_key :: string where
  "assay_key = ''Corning 384 Well Plate 112 uL Flat on Temperature Module GEN2 on 8''"

definition reservoir_plate :: labware where
  "reservoir_plate = grid_plate reservoir_key 26.85 8.2 ''A'' [''1'', ''2'']"

definition deepwell_plate :: labware where
  "deepwell_plate = grid_plate deepwell_key 41.3 8.2 ''ABCDEFGH'' [''1'', ''2'']"

definition assay_plate :: labware where
  "assay_plate = grid_plate assay_key 11.43 3.6 ''ABCDEFGHIJKLMNOP'' [''1'', ''2'']"

definition reservoir_well :: "string \<Rightarrow> well" where
  "reservoir_well n = grid_well reservoir_key 26.85 8.2 (hd n) (tl n)"

definition deepwell_well :: "string \<Rightarrow> well" where
  "deepwell_well n = grid_well deepwell_key 41.3 8.2 (hd n) (tl n)"

definition assay_well :: "string \<Rightarrow> well" where
  "assay_well n = grid_well assay_key 11.43 3.6 (hd n) (tl n)"

definition example_volumes :: ledger where
  "example_volumes =
     [reservoir_key \<mapsto> (reservoir_plate, zero_volumes reservoir_plate),
      deepwell_key \<mapsto> (deepwell_plate, zero_volumes deepwell_plate),
      assay_key \<mapsto> (assay_plate, zero_volumes assay_plate)]"

text \<open>Line 723: the well of the fixed trash.\<close>

definition trash_well :: well where
  "trash_well = \<lparr>parent = ''Opentrons Fixed Trash on 12'', well_name = ''A1'', depth = 0, width = 0\<rparr>"

text \<open>The two pipettes of lines 718-719.\<close>

definition p300m :: instrument where
  "p300m = \<lparr>name = ''p300_multi_gen2'', channels = 8, min_volume = 20, max_volume = 300\<rparr>"

definition p20 :: instrument where
  "p20 = \<lparr>name = ''p20_single_gen2'', channels = 1, min_volume = 1, max_volume = 20\<rparr>"

text \<open>A robot at rest: no tip, nothing in the tip, no command sent.\<close>

definition idle :: "ledger \<Rightarrow> robot" where
  "idle all_volumes = \<lparr>has_tip = False, current_volume = 0, commands = [], ledger = all_volumes\<rparr>"

text \<open>A rack of 4 rows, which the protocol does not load, and a ledger that tracks it too.\<close>

definition tuberack_key :: string where
  "tuberack_key = ''Opentrons 24 Tube Rack with Eppendorf 1.5 mL Safe-Lock Snapcap on 1''"

definition tuberack_plate :: labware where
  "tuberack_plate = grid_plate tuberack_key 37.8 8.7 ''ABCD'' [''1'', ''2'']"

definition tuberack_well :: "string \<Rightarrow> well" where
  "tuberack_well n = grid_well tuberack_key 37.8 8.7 (hd n) (tl n)"

definition volumes_with_rack :: ledger where
  "volumes_with_rack =
     example_volumes(tuberack_key \<mapsto> (tuberack_plate, zero_volumes tuberack_plate))"

section \<open>Properties of the ledger\<close>

lemma tracked_upd:
  "all_volumes key = Some (plate, vols) \<Longrightarrow>
   tracked (all_volumes(key \<mapsto> (plate, vols(m \<mapsto> a)))) k n =
     (if k = key \<and> n = m then Some a else tracked all_volumes k n)"
  by (simp add: tracked_def)

lemma add_to_wells_Cons_Inr:
  assumes "add_to_wells key amount (w # ws) all_volumes = Inr result"
  obtains plate vols old where
    "all_volumes key = Some (plate, vols)" "vols (well_name w) = Some old"
    "add_to_wells key amount ws
       (all_volumes(key \<mapsto> (plate, vols(well_name w \<mapsto> old + amount)))) = Inr result"
  using assms by (auto split: option.splits)

lemma add_to_wells_tracked:
  "add_to_wells key amount ws all_volumes = Inr result \<Longrightarrow>
   tracked result k n =
     map_option (\<lambda>vol. vol + (if k = key then amount * real (count_list (map well_name ws) n) else 0))
       (tracked all_volumes k n)"
proof (induction ws arbitrary: all_volumes)
  case Nil
  then show ?case by (simp add: option.map_ident)
next
  case (Cons w ws)
  from Cons.prems obtain plate vols old where
    p: "all_volumes key = Some (plate, vols)" and o: "vols (well_name w) = Some old" and
    r: "add_to_wells key amount ws
          (all_volumes(key \<mapsto> (plate, vols(well_name w \<mapsto> old + amount)))) = Inr result"
    by (rule add_to_wells_Cons_Inr)
  have t: "tracked all_volumes key (well_name w) = Some old"
    using p o by (simp add: tracked_def)
  show ?case
    unfolding Cons.IH [OF r] tracked_upd [of all_volumes key plate vols, OF p]
    using t by (cases "tracked all_volumes k n") (auto simp: algebra_simps)
qed

lemma plate_total_upd:
  assumes p: "all_volumes key = Some (plate, vols)" and o: "vols m = Some old"
    and f: "finite (dom vols)"
  shows "plate_total (all_volumes(key \<mapsto> (plate, vols(m \<mapsto> old + amount)))) k =
         plate_total all_volumes k + (if k = key then amount else 0)"
proof (cases "k = key")
  case False
  then show ?thesis by (simp add: plate_total_def)
next
  case True
  have m: "m \<in> dom vols" using o by auto
  then have d: "insert m (dom vols) = dom vols" by auto
  have "(\<Sum>n \<in> dom vols. the ((vols(m \<mapsto> old + amount)) n)) =
        (\<Sum>n \<in> dom vols. the (vols n) + (if n = m then amount else 0))"
    using o by (intro sum.cong) auto
  also have "\<dots> = (\<Sum>n \<in> dom vols. the (vols n)) + amount"
    using f m by (simp add: sum.distrib)
  finally show ?thesis
    using True p d by (simp add: plate_total_def)
qed

lemma finite_ledger_upd:
  assumes "finite_ledger all_volumes" "all_volumes key = Some (plate, vols)"
  shows "finite_ledger (all_volumes(key \<mapsto> (plate, vols(m \<mapsto> a))))"
  using assms unfolding finite_ledger_def by (auto split: if_splits)

lemma add_to_wells_total:
  "add_to_wells key amount ws all_volumes = Inr result \<Longrightarrow> finite_ledger all_volumes \<Longrightarrow>
   finite_ledger result \<and>
   plate_total result k =
     plate_total all_volumes k + (if k = key then amount * real (length ws) else 0)"
proof (induction ws arbitrary: all_volumes)
  case Nil
  then show ?case by simp
next
  case (Cons w ws)
  from Cons.prems(1) obtain plate vols old where
    p: "all_volumes key = Some (plate, vols)" and o: "vols (well_name w) = Some old" and
    r: "add_to_wells key amount ws
          (all_volumes(key \<mapsto> (plate, vols(well_name w \<mapsto> old + amount)))) = Inr result"
    by (rule add_to_wells_Cons_Inr)
  have f: "finite (dom vols)"
    using Cons.prems(2) p unfolding finite_ledger_def by blast
  have f1: "finite_ledger (all_volumes(key \<mapsto> (plate, vols(well_name w \<mapsto> old + amount))))"
    using Cons.prems(2) p by (rule finite_ledger_upd)
  define mid where "mid = all_volumes(key \<mapsto> (plate, vols(well_name w \<mapsto> old + amount)))"
  have a: "finite_ledger result \<and>
      plate_total result k = plate_total mid k + (if k = key then amount * real (length ws) else 0)"
    unfolding mid_def by (rule Cons.IH [OF r f1])
  have b: "plate_total mid k = plate_total all_volumes k + (if k = key then amount else 0)"
    unfolding mid_def by (rule plate_total_upd [of all_volumes key plate vols, OF p o f])
  show ?case
    using a b by (simp add: distrib_left)
qed



lemma destination_info_flag:
  "destination_info all_volumes d = Inr (flag, r, asg) \<Longrightarrow> flag = (\<not> is_trash d)"
  unfolding destination_info_def by (auto split: if_splits option.splits list.splits)

lemma adjust_well_volume_Inr:
  assumes "adjust_well_volume v s0 d0 ch all_volumes = Inr result"
  shows "\<exists>sp c r asg up sl dst mid.
      source_info all_volumes (as_well s0) = Inr (sp, c) \<and>
      destination_info all_volumes (as_well d0) = Inr (\<not> is_trash (as_well d0), r, asg) \<and>
      channel_lists ch sp (as_well s0) c r asg (as_well d0) = Inr (Some (up, sl), dst) \<and>
      add_to_wells (parent (as_well s0)) (- (v * of_int up)) sl all_volumes = Inr mid \<and>
      (if is_trash (as_well d0) then result = mid
       else \<exists>disp dl. dst = Some (disp, dl) \<and>
              add_to_wells (parent (as_well d0)) (v * of_int disp) dl mid = Inr result)"
proof -
  let ?s = "as_well s0" and ?d = "as_well d0"
  from assms obtain sp c where si: "source_info all_volumes ?s = Inr (sp, c)"
    unfolding adjust_well_volume_def Let_def
    by (cases "source_info all_volumes ?s") auto
  from assms si obtain flag r asg where di0: "destination_info all_volumes ?d = Inr (flag, r, asg)"
    unfolding adjust_well_volume_def Let_def
    by (cases "destination_info all_volumes ?d") auto
  have flag: "flag = (\<not> is_trash ?d)"
    using di0 by (rule destination_info_flag)
  from assms si di0 obtain src dst where
    cl0: "channel_lists ch sp ?s c r asg ?d = Inr (src, dst)"
    unfolding adjust_well_volume_def Let_def
    by (cases "channel_lists ch sp ?s c r asg ?d") auto
  from assms si di0 cl0 obtain up sl where src: "src = Some (up, sl)"
    unfolding adjust_well_volume_def Let_def
    by (cases src) auto
  from assms si di0 cl0 src obtain mid where
    a1: "add_to_wells (parent ?s) (- (v * of_int up)) sl all_volumes = Inr mid"
    unfolding adjust_well_volume_def Let_def
    by (cases "add_to_wells (parent ?s) (- (v * of_int up)) sl all_volumes") auto
  have rest: "if is_trash ?d then result = mid
       else \<exists>disp dl. dst = Some (disp, dl) \<and>
              add_to_wells (parent ?d) (v * of_int disp) dl mid = Inr result"
    using assms si di0 cl0 src a1 flag
    unfolding adjust_well_volume_def Let_def
    by (cases dst) auto
  show ?thesis
    using si di0 cl0 src a1 rest flag by blast
qed


lemma shifted_trans:
  assumes "shifted a d1 b" and "shifted b d2 c"
  shows "shifted a (\<lambda>key n. d1 key n + d2 key n) c"
  using assms unfolding shifted_def
  by (simp add: option.map_comp comp_def add.assoc)

lemma shifted_eq:
  assumes "shifted a d b" and "\<And>key n. d key n = d' key n"
  shows "shifted a d' b"
  using assms unfolding shifted_def by simp

lemma add_to_wells_shifted:
  assumes "add_to_wells key amount ws all_volumes = Inr result"
  shows "shifted all_volumes
           (\<lambda>k n. if k = key then amount * real (count_list (map well_name ws) n) else 0) result"
  unfolding shifted_def using add_to_wells_tracked [OF assms] by simp

lemma add_to_wells_tracked_all:
  "add_to_wells key amount ws all_volumes = Inr result \<Longrightarrow> w \<in> set ws \<Longrightarrow>
   tracked all_volumes key (well_name w) \<noteq> None"
proof (induction ws arbitrary: all_volumes)
  case Nil
  then show ?case by simp
next
  case (Cons a ws)
  from Cons.prems(1) obtain plate vols old where
    p: "all_volumes key = Some (plate, vols)" and o: "vols (well_name a) = Some old" and
    r: "add_to_wells key amount ws
          (all_volumes(key \<mapsto> (plate, vols(well_name a \<mapsto> old + amount)))) = Inr result"
    by (rule add_to_wells_Cons_Inr)
  show ?case
  proof (cases "w = a")
    case True
    then show ?thesis using p o by (simp add: tracked_def)
  next
    case False
    then have "w \<in> set ws" using Cons.prems(2) by simp
    from Cons.IH [OF r this] show ?thesis
      unfolding tracked_upd [of all_volumes key plate vols, OF p]
      using p o by (auto simp: tracked_def split: if_splits)
  qed
qed

lemma adjust_single_shifted:
  assumes run: "adjust_well_volume v src dst 1 all_volumes = Inr result"
  shows "shifted all_volumes
           (\<lambda>key n. (if is_trash (as_well dst) then 0 else credit (as_well dst) v key n)
                     - credit (as_well src) v key n) result"
    and "tracked all_volumes (parent (as_well src)) (well_name (as_well src)) \<noteq> None"
proof -
  let ?s = "as_well src" and ?d = "as_well dst"
  from adjust_well_volume_Inr [OF run] obtain sp c r asg up sl dl mid where
    cl: "channel_lists 1 sp ?s c r asg ?d = Inr (Some (up, sl), dl)" and
    a1: "add_to_wells (parent ?s) (- (v * of_int up)) sl all_volumes = Inr mid" and
    rest: "if is_trash ?d then result = mid
       else \<exists>disp ds. dl = Some (disp, ds) \<and>
              add_to_wells (parent ?d) (v * of_int disp) ds mid = Inr result"
    by blast
  from cl have up: "up = 1" and sl: "sl = [?s]" and dl: "dl = Some (1, [?d])"
    unfolding channel_lists_def by simp_all
  have s1: "shifted all_volumes (\<lambda>key n. - credit ?s v key n) mid"
    using add_to_wells_shifted [OF a1] unfolding up sl
    by (rule shifted_eq) (simp add: credit_def)
  show "tracked all_volumes (parent ?s) (well_name ?s) \<noteq> None"
    using add_to_wells_tracked_all [OF a1, of ?s] unfolding sl by simp
  show "shifted all_volumes
           (\<lambda>key n. (if is_trash ?d then 0 else credit ?d v key n) - credit ?s v key n) result"
  proof (cases "is_trash ?d")
    case True
    with rest have "result = mid" by simp
    with s1 True show ?thesis by simp
  next
    case False
    with rest dl have a2: "add_to_wells (parent ?d) v [?d] mid = Inr result"
      by (simp del: add_to_wells.simps)
    have s2: "shifted mid (\<lambda>key n. credit ?d v key n) result"
      using add_to_wells_shifted [OF a2] by (rule shifted_eq) (simp add: credit_def)
    show ?thesis
      using shifted_trans [OF s1 s2] by (rule shifted_eq) (simp add: False)
  qed
qed

lemma adjust_single_total:
  assumes run: "adjust_well_volume v src dst 1 all_volumes = Inr result"
    and fin: "finite_ledger all_volumes" and nt: "\<not> is_trash (as_well dst)"
  shows "finite_ledger result \<and>
         plate_total result key = plate_total all_volumes key
           + ((if key = parent (as_well dst) then v else 0)
              - (if key = parent (as_well src) then v else 0))"
proof -
  let ?s = "as_well src" and ?d = "as_well dst"
  from adjust_well_volume_Inr [OF run] obtain sp c r asg up sl dl mid where
    cl: "channel_lists 1 sp ?s c r asg ?d = Inr (Some (up, sl), dl)" and
    a1: "add_to_wells (parent ?s) (- (v * of_int up)) sl all_volumes = Inr mid" and
    rest: "if is_trash ?d then result = mid
       else \<exists>disp ds. dl = Some (disp, ds) \<and>
              add_to_wells (parent ?d) (v * of_int disp) ds mid = Inr result"
    by blast
  from cl have up: "up = 1" and sl: "sl = [?s]" and dl: "dl = Some (1, [?d])"
    unfolding channel_lists_def by simp_all
  from rest dl nt have a2: "add_to_wells (parent ?d) v [?d] mid = Inr result"
    by (simp del: add_to_wells.simps)
  have m: "finite_ledger mid \<and>
      plate_total mid key = plate_total all_volumes key
        + (if key = parent ?s then - (v * of_int up) * real (length sl) else 0)"
    using a1 fin by (rule add_to_wells_total)
  then have fm: "finite_ledger mid" by simp
  have e: "finite_ledger result \<and>
      plate_total result key = plate_total mid key
        + (if key = parent ?d then v * real (length [?d]) else 0)"
    using a2 fm by (rule add_to_wells_total)
  show ?thesis using m e unfolding up sl by simp
qed

lemma adjust_all_total:
  "adjust_all ts all_volumes = Inr result \<Longrightarrow> finite_ledger all_volumes \<Longrightarrow>
   \<forall>(v, s, d) \<in> set ts. \<not> is_trash (as_well d) \<Longrightarrow>
   plate_total result key = plate_total all_volumes key
     + (\<Sum>(v, s, d) \<leftarrow> ts. (if key = parent (as_well d) then v else 0)
                         - (if key = parent (as_well s) then v else 0))"
proof (induction ts arbitrary: all_volumes)
  case Nil
  then show ?case by simp
next
  case (Cons t ts)
  obtain v s d where t: "t = (v, s, d)" by (cases t)
  from Cons.prems(1) obtain mid where
    one: "adjust_well_volume v s d 1 all_volumes = Inr mid" and
    more: "adjust_all ts mid = Inr result"
    unfolding t by (cases "adjust_well_volume v s d 1 all_volumes") auto
  have nt: "\<not> is_trash (as_well d)" using Cons.prems(3) unfolding t by simp
  have step: "finite_ledger mid \<and>
      plate_total mid key = plate_total all_volumes key
        + ((if key = parent (as_well d) then v else 0)
           - (if key = parent (as_well s) then v else 0))"
    using one Cons.prems(2) nt by (rule adjust_single_total)
  have rest: "\<forall>(v, s, d) \<in> set ts. \<not> is_trash (as_well d)"
    using Cons.prems(3) by simp
  have "plate_total result key = plate_total mid key
     + (\<Sum>(v, s, d) \<leftarrow> ts. (if key = parent (as_well d) then v else 0)
                         - (if key = parent (as_well s) then v else 0))"
    using more step rest by (intro Cons.IH) simp_all
  then show ?case using step unfolding t by simp
qed

lemma sum_list_zero: "\<forall>t \<in> set ts. f t = (0::real) \<Longrightarrow> sum_list (map f ts) = 0"
  by (induction ts) auto


lemma finite_example_volumes: "finite_ledger example_volumes"
  unfolding finite_ledger_def example_volumes_def zero_volumes_def
  by (auto split: if_splits simp: finite_dom_map_of)


lemma isl_projl: "isl r \<Longrightarrow> projl r = e \<Longrightarrow> r = Inl e"
  by (cases r) auto


lemma source_wells_unsupported:
  "length (rows sp) \<notin> {1, 8, 16} \<Longrightarrow> source_wells sp s c = Inr None"
  by (simp add: source_wells_def Let_def)

lemma destination_wells_unsupported:
  "r \<notin> {1, 8, 16} \<Longrightarrow> destination_wells r asg d = Inr None"
  by (simp add: destination_wells_def)

lemma destination_wells_trash: "destination_wells 0 None d = Inr None"
  by (simp add: destination_wells_def)

lemma unsupported_source_fails:
  assumes "all_volumes (parent (as_well src)) = Some (sp, sv)"
    and "length (rows sp) \<notin> {1, 8, 16}"
  shows "\<exists>e. adjust_well_volume v src dst 8 all_volumes = Inl e"
  using assms
  by (auto simp: adjust_well_volume_def Let_def source_info_def channel_lists_def
      source_wells_unsupported split: list.splits sum.splits prod.splits option.splits)

lemma unsupported_source_to_trash:
  assumes "all_volumes (parent (as_well src)) = Some (sp, sv)"
    and "length (rows sp) \<notin> {1, 8, 16}"
    and "well_name (as_well src) \<noteq> []" and "is_trash (as_well dst)"
  shows "adjust_well_volume v src dst 8 all_volumes = Inl (UnboundLocalError ''source_well_list'')"
  using assms
  by (auto simp: adjust_well_volume_def Let_def source_info_def destination_info_def
      channel_lists_def source_wells_unsupported destination_wells_trash split: list.splits)

lemma unsupported_destination_fails:
  assumes "\<not> is_trash (as_well dst)"
    and "all_volumes (parent (as_well dst)) = Some (dp, dv)"
    and "length (rows dp) \<notin> {1, 8, 16}"
  shows "\<exists>e. adjust_well_volume v src dst 8 all_volumes = Inl e"
proof (cases "adjust_well_volume v src dst 8 all_volumes")
  case (Inl e)
  then show ?thesis by blast
next
  case (Inr result)
  from adjust_well_volume_Inr [OF Inr] obtain sp c r asg up sl dl mid where
    di: "destination_info all_volumes (as_well dst) = Inr (\<not> is_trash (as_well dst), r, asg)" and
    cl: "channel_lists 8 sp (as_well src) c r asg (as_well dst) = Inr (Some (up, sl), dl)" and
    rest: "if is_trash (as_well dst) then result = mid
       else \<exists>disp ds. dl = Some (disp, ds) \<and>
              add_to_wells (parent (as_well dst)) (v * of_int disp) ds mid = Inr result"
    by blast
  from di assms have r: "r = length (rows dp)"
    by (auto simp: destination_info_def split: list.splits)
  from cl have "dl = None"
    unfolding channel_lists_def r
    by (auto simp: destination_wells_unsupported [OF assms(3)] split: sum.splits)
  with rest assms(1) show ?thesis by simp
qed


lemma unsupported_destination_after_source:
  assumes "\<not> is_trash (as_well dst)"
    and "all_volumes (parent (as_well dst)) = Some (dp, dv)"
    and "length (rows dp) \<notin> {1, 8, 16}"
    and "well_name (as_well dst) \<noteq> []"
    and "all_volumes (parent (as_well src)) = Some (sp, sv)"
    and "length (rows sp) = 1"
    and "sv (well_name (as_well src)) \<noteq> None"
    and "well_name (as_well src) \<noteq> []"
  shows "adjust_well_volume v src dst 8 all_volumes
    = Inl (UnboundLocalError ''destination_well_list'')"
  using assms
  by (auto simp: adjust_well_volume_def Let_def source_info_def destination_info_def
      channel_lists_def source_wells_def destination_wells_unsupported split: list.splits)


lemma every_other_nth:
  "every_other xs = map (\<lambda>j. xs ! (2 * j)) [0..<(length xs + 1) div 2]"
proof (induction xs rule: every_other.induct)
  case 1
  then show ?case by simp
next
  case (2 a)
  then show ?case by simp
next
  case (3 a b rest)
  have "[0..<(length (a # b # rest) + 1) div 2] = 0 # map Suc [0..<(length rest + 1) div 2]"
    by (simp add: upt_conv_Cons map_Suc_upt del: upt_Suc)
  then show ?case using 3 by (simp add: comp_def)
qed

lemma slice_step2_nth:
  assumes "length xs = 16" and "i \<le> 1"
  shows "slice_step2 i xs = map (\<lambda>j. xs ! (i + 2 * j)) [0..<8]"
proof -
  have "(length (drop i xs) + 1) div 2 = 8"
    using assms by (cases "i = 0") auto
  then have "slice_step2 i xs = map (\<lambda>j. drop i xs ! (2 * j)) [0..<8]"
    unfolding slice_step2_def every_other_nth [of "drop i xs"] by simp
  also have "\<dots> = map (\<lambda>j. xs ! (i + 2 * j)) [0..<8]"
    using assms by (intro map_cong) auto
  finally show ?thesis .
qed

lemma set_every_other: "set (every_other xs) \<subseteq> set xs"
  by (induction xs rule: every_other.induct) auto

lemma distinct_every_other:
  "distinct (map f xs) \<Longrightarrow> distinct (map f (every_other xs))"
proof (induction xs rule: every_other.induct)
  case (3 a b rest)
  then show ?case using set_every_other [of rest] by auto
qed simp_all

lemma distinct_slice_step2:
  "distinct (map f xs) \<Longrightarrow> distinct (map f (slice_step2 i xs))"
  unfolding slice_step2_def by (intro distinct_every_other) (simp flip: drop_map)

lemma count_list_distinct:
  "distinct xs \<Longrightarrow> real (count_list xs n) = (if n \<in> set xs then 1 else 0)"
  by (induction xs) auto


lemma source_wells_addressed:
  assumes "source_wells sp s c = Inr (Some (up, sl))" and "well_name s = c # cs"
  shows "addressed sp s c cs up sl"
  using assms unfolding source_wells_def addressed_def Let_def start_dict_def
  by (auto split: if_splits option.splits)

lemma destination_wells_addressed:
  assumes "destination_wells (length (rows dp)) (Some (dp, c)) d = Inr (Some (disp, dl))"
    and "well_name d = c # cs"
  shows "addressed dp d c cs disp dl"
  using assms unfolding destination_wells_def addressed_def start_dict_def
  by (auto split: if_splits option.splits)

lemma add_to_wells_distinct:
  assumes "add_to_wells key amount ws all_volumes = Inr result"
    and "distinct (map well_name ws)"
  shows "shifted all_volumes (credit_each key ws amount) result"
  using add_to_wells_shifted [OF assms(1)]
  by (rule shifted_eq) (simp add: credit_each_def count_list_distinct [OF assms(2)])

lemma fanned_addressed:
  assumes add: "add_to_wells (parent w) (a * of_int up) wl all_volumes = Inr result"
    and wf: "well_formed plate" and nm: "well_name w = c # cs"
    and geo: "addressed plate w c cs up wl"
  shows "fanned all_volumes a plate w result"
proof -
  consider
    (one) "length (rows plate) = 1" "up = 8" "wl = [w]"
  | (eight) "length (rows plate) = 8" "c = CHR ''A''" "up = 1" "columns_by_name plate cs = Some wl"
  | (sixteen) i col where "length (rows plate) = 16" "up = 1"
      "c = CHR ''A'' \<and> i = 0 \<or> c = CHR ''B'' \<and> i = 1"
      "columns_by_name plate cs = Some col" "wl = slice_step2 i col"
    using geo unfolding addressed_def by blast
  then show ?thesis
  proof cases
    case one
    have "shifted all_volumes (credit_each (parent w) [w] (a * 8)) result"
      using add unfolding one by (intro add_to_wells_distinct) simp_all
    then have "shifted all_volumes (credit w (8 * a)) result"
      by (rule shifted_eq) (simp add: credit_each_def credit_def)
    with one show ?thesis unfolding fanned_def by simp
  next
    case eight
    from wf eight have len: "length wl = 8" and dis: "distinct (map well_name wl)"
      unfolding well_formed_def by auto
    have "shifted all_volumes (credit_each (parent w) wl a) result"
      using add dis unfolding eight by (intro add_to_wells_distinct) simp_all
    with eight len nm show ?thesis unfolding fanned_def by simp
  next
    case sixteen
    from wf sixteen have len: "length col = 16" and dis: "distinct (map well_name col)"
      unfolding well_formed_def by auto
    have i: "i \<le> 1" using sixteen(3) by auto
    have dis2: "distinct (map well_name wl)"
      unfolding sixteen(5) using dis by (rule distinct_slice_step2)
    have "shifted all_volumes (credit_each (parent w) wl a) result"
      using add dis2 unfolding sixteen(2) by (intro add_to_wells_distinct) simp_all
    then have "shifted all_volumes
        (credit_each (parent w) (map (\<lambda>j. col ! (i + 2 * j)) [0..<8]) a) result"
      unfolding sixteen(5) slice_step2_nth [OF len i] .
    with sixteen len nm show ?thesis unfolding fanned_def by auto
  qed
qed


lemma well_formed_grid_plate:
  "distinct letters \<Longrightarrow> well_formed (grid_plate key dp wd letters cols)"
  unfolding well_formed_def grid_plate_def grid_well_def
  by (auto simp: distinct_map comp_def inj_on_def split: if_splits)

lemma well_formed_examples:
  "well_formed reservoir_plate" "well_formed deepwell_plate" "well_formed assay_plate"
  unfolding reservoir_plate_def deepwell_plate_def assay_plate_def
  by (rule well_formed_grid_plate, simp)+


lemma add_to_wells_succeeds:
  assumes "all_volumes key = Some (plate, vols)"
    and "\<forall>w \<in> set ws. vols (well_name w) \<noteq> None"
  shows "\<exists>result vols'. add_to_wells key amount ws all_volumes = Inr result \<and>
           result key = Some (plate, vols') \<and> dom vols' = dom vols \<and>
           (\<forall>k. k \<noteq> key \<longrightarrow> result k = all_volumes k)"
  using assms
proof (induction ws arbitrary: all_volumes vols)
  case Nil
  then show ?case by simp
next
  case (Cons w ws)
  from Cons.prems(2) obtain old where old: "vols (well_name w) = Some old" by auto
  let ?vols = "vols(well_name w \<mapsto> old + amount)"
  let ?next = "all_volumes(key \<mapsto> (plate, ?vols))"
  have d: "dom ?vols = dom vols" using old by auto
  have reg: "?next key = Some (plate, ?vols)" by simp
  have all: "\<forall>x \<in> set ws. ?vols (well_name x) \<noteq> None"
    using Cons.prems(2) by simp
  from Cons.IH [of ?next ?vols, OF reg all] obtain result vols' where
    r: "add_to_wells key amount ws ?next = Inr result" and
    k: "result key = Some (plate, vols')" and dv: "dom vols' = dom ?vols" and
    o: "\<forall>k. k \<noteq> key \<longrightarrow> result k = ?next k"
    by blast
  have run: "add_to_wells key amount (w # ws) all_volumes = Inr result"
    using Cons.prems(1) old r by simp
  have others: "\<forall>k. k \<noteq> key \<longrightarrow> result k = all_volumes k"
    using o by simp
  have same: "dom vols' = dom vols"
    unfolding dv by (rule d)
  show ?case
    using run k same others by (intro exI conjI)
qed

lemma set_slice_step2: "set (slice_step2 i xs) \<subseteq> set xs"
  unfolding slice_step2_def using set_every_other [of "drop i xs"] set_drop_subset [of i xs]
  by blast

lemma in_slice_step2: "x \<in> set (slice_step2 i xs) \<Longrightarrow> x \<in> set xs"
  using set_slice_step2 [of i xs] by (rule subsetD)

lemma aligned_name: "aligned plate w \<Longrightarrow> \<exists>c cs. well_name w = c # cs"
  unfolding aligned_def by (cases "well_name w") auto

lemma source_wells_aligned:
  assumes "aligned sp s" and "well_name s = c # cs"
  shows "\<exists>up sl. source_wells sp s c = Inr (Some (up, sl)) \<and>
           (sl = [s] \<or> (\<exists>col. columns_by_name sp (drop 1 (well_name s)) = Some col \<and>
                               set sl \<subseteq> set col))"
  using assms unfolding aligned_def source_wells_def Let_def start_dict_def
  by (auto dest: in_slice_step2)

lemma destination_wells_aligned:
  assumes "aligned dp d" and "well_name d = c # cs"
  shows "\<exists>disp dl. destination_wells (length (rows dp)) (Some (dp, c)) d = Inr (Some (disp, dl)) \<and>
           (dl = [d] \<or> (\<exists>col. columns_by_name dp (drop 1 (well_name d)) = Some col \<and>
                               set dl \<subseteq> set col))"
  using assms unfolding aligned_def destination_wells_def start_dict_def
  by (auto dest: in_slice_step2)

lemma covered_wells:
  assumes "covered vols plate w"
    and "wl = [w] \<or> (\<exists>col. columns_by_name plate (drop 1 (well_name w)) = Some col \<and>
                               set wl \<subseteq> set col)"
  shows "\<forall>x \<in> set wl. vols (well_name x) \<noteq> None"
  using assms unfolding covered_def by auto

lemma multichannel_effect:
  assumes run: "adjust_well_volume v src dst 8 all_volumes = Inr result"
    and sp: "all_volumes (parent (as_well src)) = Some (sp, sv)" "well_formed sp"
    and dp: "\<not> is_trash (as_well dst) \<longrightarrow>
               all_volumes (parent (as_well dst)) = Some (dp, dv) \<and> well_formed dp"
  shows "\<exists>mid. fanned all_volumes (- v) sp (as_well src) mid \<and>
           (if is_trash (as_well dst) then result = mid
            else fanned mid v dp (as_well dst) result)"
proof -
  let ?s = "as_well src" and ?d = "as_well dst"
  from adjust_well_volume_Inr [OF run] obtain sp' c r asg up sl dl mid where
    si: "source_info all_volumes ?s = Inr (sp', c)" and
    di: "destination_info all_volumes ?d = Inr (\<not> is_trash ?d, r, asg)" and
    cl: "channel_lists 8 sp' ?s c r asg ?d = Inr (Some (up, sl), dl)" and
    a1: "add_to_wells (parent ?s) (- (v * of_int up)) sl all_volumes = Inr mid" and
    rest: "if is_trash ?d then result = mid
       else \<exists>disp ds. dl = Some (disp, ds) \<and>
              add_to_wells (parent ?d) (v * of_int disp) ds mid = Inr result"
    by blast
  from si sp(1) obtain cs where sp': "sp' = sp" and nm: "well_name ?s = c # cs"
    unfolding source_info_def by (auto split: list.splits)
  from cl have sw: "source_wells sp ?s c = Inr (Some (up, sl))"
    and dw: "destination_wells r asg ?d = Inr dl"
    unfolding channel_lists_def sp' by (auto split: sum.splits)
  have a1': "add_to_wells (parent ?s) ((- v) * of_int up) sl all_volumes = Inr mid"
    using a1 by simp
  have src_part: "fanned all_volumes (- v) sp ?s mid"
    using a1' sp(2) nm source_wells_addressed [OF sw nm] by (rule fanned_addressed)
  have dst_part: "fanned mid v dp ?d result" if nt: "\<not> is_trash ?d"
  proof -
    from dp nt have reg: "all_volumes (parent ?d) = Some (dp, dv)" and wf: "well_formed dp"
      by simp_all
    from di reg nt obtain c' cs' where r: "r = length (rows dp)" and asg: "asg = Some (dp, c')"
      and nm': "well_name ?d = c' # cs'"
      unfolding destination_info_def by (auto split: list.splits)
    from rest nt obtain disp ds where dl: "dl = Some (disp, ds)"
      and a2: "add_to_wells (parent ?d) (v * of_int disp) ds mid = Inr result"
      by auto
    from dw have "destination_wells (length (rows dp)) (Some (dp, c')) ?d = Inr (Some (disp, ds))"
      unfolding r asg dl .
    from a2 wf nm' destination_wells_addressed [OF this nm'] show ?thesis
      by (rule fanned_addressed)
  qed
  show ?thesis
  proof (cases "is_trash ?d")
    case True
    with rest src_part show ?thesis by auto
  next
    case False
    with src_part dst_part show ?thesis by auto
  qed
qed

lemma multichannel_succeeds:
  assumes sp: "all_volumes (parent (as_well src)) = Some (sp, sv)"
      "aligned sp (as_well src)" "covered sv sp (as_well src)"
    and dp: "\<not> is_trash (as_well dst) \<longrightarrow>
               all_volumes (parent (as_well dst)) = Some (dp, dv) \<and>
               aligned dp (as_well dst) \<and> covered dv dp (as_well dst)"
  shows "\<exists>result. adjust_well_volume v src dst 8 all_volumes = Inr result"
proof -
  let ?s = "as_well src" and ?d = "as_well dst"
  from aligned_name [OF sp(2)] obtain c cs where nm: "well_name ?s = c # cs" by blast
  have si: "source_info all_volumes ?s = Inr (sp, c)"
    by (simp add: source_info_def sp(1) nm)
  from source_wells_aligned [OF sp(2) nm] obtain up sl where
    sw: "source_wells sp ?s c = Inr (Some (up, sl))" and
    shape: "sl = [?s] \<or> (\<exists>col. columns_by_name sp (drop 1 (well_name ?s)) = Some col \<and>
                               set sl \<subseteq> set col)"
    by blast
  have cov: "\<forall>x \<in> set sl. sv (well_name x) \<noteq> None"
    using sp(3) shape by (rule covered_wells)
  from add_to_wells_succeeds [of all_volumes "parent ?s" sp sv sl "- (v * of_int up)", OF sp(1) cov]
  obtain mid vols' where
    a1: "add_to_wells (parent ?s) (- (v * of_int up)) sl all_volumes = Inr mid" and
    mk: "mid (parent ?s) = Some (sp, vols')" and md: "dom vols' = dom sv" and
    mo: "\<forall>k. k \<noteq> parent ?s \<longrightarrow> mid k = all_volumes k"
    by blast
  show ?thesis
  proof (cases "is_trash ?d")
    case True
    have di: "destination_info all_volumes ?d = Inr (False, 0, None)"
      by (simp add: destination_info_def True)
    have "adjust_well_volume v src dst 8 all_volumes = Inr mid"
      unfolding adjust_well_volume_def Let_def si di
      by (simp add: channel_lists_def sw destination_wells_trash a1)
    then show ?thesis by blast
  next
    case False
    with dp have reg: "all_volumes (parent ?d) = Some (dp, dv)" and al: "aligned dp ?d"
      and cv: "covered dv dp ?d"
      by simp_all
    from aligned_name [OF al] obtain c' cs' where nm': "well_name ?d = c' # cs'" by blast
    have di: "destination_info all_volumes ?d = Inr (True, length (rows dp), Some (dp, c'))"
      by (simp add: destination_info_def False reg nm')
    from destination_wells_aligned [OF al nm'] obtain disp dl where
      dw: "destination_wells (length (rows dp)) (Some (dp, c')) ?d = Inr (Some (disp, dl))" and
      shape': "dl = [?d] \<or> (\<exists>col. columns_by_name dp (drop 1 (well_name ?d)) = Some col \<and>
                               set dl \<subseteq> set col)"
      by blast
    have cov': "\<forall>x \<in> set dl. dv (well_name x) \<noteq> None"
      using cv shape' by (rule covered_wells)
    obtain dv2 where mid_d: "mid (parent ?d) = Some (dp, dv2)" and dom2: "dom dv2 = dom dv"
    proof (cases "parent ?d = parent ?s")
      case True
      with reg sp(1) have "dp = sp" "dv = sv" by simp_all
      with mk md True that show ?thesis by simp
    next
      case False
      with mo reg that show ?thesis by simp
    qed
    have cov2: "\<forall>x \<in> set dl. dv2 (well_name x) \<noteq> None"
      using cov' dom2 by (metis domIff)
    from add_to_wells_succeeds [of mid "parent ?d" dp dv2 dl "v * of_int disp", OF mid_d cov2]
    obtain result where
      a2: "add_to_wells (parent ?d) (v * of_int disp) dl mid = Inr result"
      by blast
    have "adjust_well_volume v src dst 8 all_volumes = Inr result"
      unfolding adjust_well_volume_def Let_def si di
      by (simp add: channel_lists_def sw dw a1 a2)
    then show ?thesis by blast
  qed
qed

lemma zero_volumes_tracked:
  "w \<in> set (concat (rows plate)) \<Longrightarrow> zero_volumes plate (well_name w) \<noteq> None"
  unfolding zero_volumes_def by (simp add: map_of_eq_None_iff image_iff) (force simp: comp_def)

lemma covered_grid:
  assumes "r \<in> set letters" and "c \<in> set cols"
  shows "covered (zero_volumes (grid_plate key dp wd letters cols))
           (grid_plate key dp wd letters cols) (grid_well key dp wd r c)"
proof -
  have mem: "grid_well key dp wd r' c \<in> set (concat (rows (grid_plate key dp wd letters cols)))"
    if "r' \<in> set letters" for r'
    using that assms(2) by (auto simp: grid_plate_def)
  show ?thesis
    unfolding covered_def
  proof (intro conjI allI impI)
    show "zero_volumes (grid_plate key dp wd letters cols) (well_name (grid_well key dp wd r c))
        \<noteq> None"
      using mem [OF assms(1)] by (rule zero_volumes_tracked)
  next
    fix col x
    assume col: "columns_by_name (grid_plate key dp wd letters cols)
        (drop 1 (well_name (grid_well key dp wd r c))) = Some col" and x: "x \<in> set col"
    from col assms(2) have "col = map (\<lambda>r. grid_well key dp wd r c) letters"
      by (simp add: grid_plate_def grid_well_def)
    with x obtain r' where "r' \<in> set letters" "x = grid_well key dp wd r' c" by auto
    with mem show "zero_volumes (grid_plate key dp wd letters cols) (well_name x) \<noteq> None"
      by (simp add: zero_volumes_tracked)
  qed
qed


lemma example_registered:
  "example_volumes reservoir_key = Some (reservoir_plate, zero_volumes reservoir_plate)"
  "example_volumes deepwell_key = Some (deepwell_plate, zero_volumes deepwell_plate)"
  "example_volumes assay_key = Some (assay_plate, zero_volumes assay_plate)"
  by (simp_all add: example_volumes_def reservoir_key_def deepwell_key_def assay_key_def)

lemma example_parents:
  "parent (as_well (Well (reservoir_well n))) = reservoir_key"
  "parent (as_well (Well (deepwell_well n))) = deepwell_key"
  "parent (as_well (Well (assay_well n))) = assay_key"
  by (simp_all add: as_well_def reservoir_well_def deepwell_well_def assay_well_def grid_well_def)

lemma example_aligned:
  "aligned reservoir_plate (reservoir_well ''A1'')"
  "aligned reservoir_plate (reservoir_well ''A2'')"
  "aligned deepwell_plate (deepwell_well ''A1'')"
  "aligned deepwell_plate (deepwell_well ''A2'')"
  "aligned assay_plate (assay_well ''A1'')"
  "aligned assay_plate (assay_well ''B2'')"
  by (simp_all add: aligned_def reservoir_plate_def deepwell_plate_def assay_plate_def
      reservoir_well_def deepwell_well_def assay_well_def grid_plate_def grid_well_def)

lemma example_covered:
  "covered (zero_volumes reservoir_plate) reservoir_plate (reservoir_well ''A1'')"
  "covered (zero_volumes reservoir_plate) reservoir_plate (reservoir_well ''A2'')"
  "covered (zero_volumes deepwell_plate) deepwell_plate (deepwell_well ''A1'')"
  "covered (zero_volumes deepwell_plate) deepwell_plate (deepwell_well ''A2'')"
  "covered (zero_volumes assay_plate) assay_plate (assay_well ''A1'')"
  "covered (zero_volumes assay_plate) assay_plate (assay_well ''B2'')"
  unfolding reservoir_plate_def deepwell_plate_def assay_plate_def
    reservoir_well_def deepwell_well_def assay_well_def
  by (simp_all add: covered_grid)

section \<open>Properties of the serial dilution\<close>

lemma mix_first_well_single:
  "\<exists>st1. mix_first_well mix_volume [w] mix_steps dispense_height blowout_height do_blowout st
     = Inr st1"
  by (simp add: mix_first_well_def Let_def)

lemma ledger_primitives:
  "ledger (pipette_pick_up_tip st) = ledger st"
  "ledger (pipette_drop_tip st) = ledger st"
  "ledger (pipette_aspirate volume location rate st) = ledger st"
  "ledger (pipette_dispense volume location rate st) = ledger st"
  "ledger (pipette_blow_out location st) = ledger st"
  "ledger (pipette_touch_tip speed st) = ledger st"
  "ledger (pipette_move_to target force_direct st) = ledger st"
  "ledger (protocol_delay seconds st) = ledger st"
  by (simp_all add: pipette_pick_up_tip_def pipette_drop_tip_def pipette_aspirate_def
      pipette_dispense_def pipette_blow_out_def pipette_touch_tip_def pipette_move_to_def
      protocol_delay_def)

lemma ledger_mix_cycles: "ledger (mix_cycles n mix_volume w rate dispense_height st) = ledger st"
  by (induction n arbitrary: st) (simp_all add: ledger_primitives)

lemma ledger_mix_first_well:
  "mix_first_well mix_volume wells mix_steps dispense_height blowout_height do_blowout st = Inr st1
   \<Longrightarrow> ledger st1 = ledger st"
  unfolding mix_first_well_def Let_def
  by (auto simp: ledger_primitives ledger_mix_cycles split: list.splits if_splits)

lemma shifted_refl: "shifted a (\<lambda>key n. 0) a"
  unfolding shifted_def by (simp add: option.map_ident)

lemma dilution_step_ledger:
  assumes "dilution_step pipette v mix_volume wells mix_steps dispense_height blowout_height
       do_blowout always_get_new_tip i st = Inr st1"
    and "channels pipette = 1" and "i + 1 < length wells"
    and "\<not> is_trash (wells ! (i + 1))"
  shows "shifted (ledger st)
           (\<lambda>key n. credit (wells ! (i + 1)) v key n - credit (wells ! i) v key n) (ledger st1)"
proof -
  from assms(3) have ix: "index wells i = Inr (wells ! i)"
    "index wells (i + 1) = Inr (wells ! (i + 1))"
    by (simp_all add: index_def)
  from assms(1) obtain result where
    adj: "adjust_well_volume v (Well (wells ! i)) (Well (wells ! (i + 1))) 1 (ledger st)
            = Inr result"
    and l1: "ledger st1 = result"
    unfolding dilution_step_def ix Let_def assms(2)
    by (auto simp: ledger_primitives ledger_mix_cycles split: sum.splits if_splits)
  from adjust_single_shifted(1) [OF adj] assms(4) show ?thesis
    unfolding l1 by (simp add: as_well_def)
qed

lemma dilution_steps_ledger:
  assumes "dilution_steps pipette v mix_volume wells mix_steps dispense_height blowout_height
       do_blowout always_get_new_tip [j..<m] st = Inr st1"
    and "channels pipette = 1" and "j \<le> m" and "m < length wells"
    and "\<forall>w \<in> set wells. \<not> is_trash w"
  shows "shifted (ledger st)
           (\<lambda>key n. credit (wells ! m) v key n - credit (wells ! j) v key n) (ledger st1)"
  using assms(1,3)
proof (induction "m - j" arbitrary: j st)
  case 0
  then have "j = m" by simp
  with 0 have "st1 = st" by simp
  then show ?case using \<open>j = m\<close> shifted_refl [of "ledger st"] by simp
next
  case (Suc d)
  then have lt: "j < m" by simp
  then have up: "[j..<m] = j # [Suc j..<m]" by (rule upt_conv_Cons)
  from Suc.prems(1) obtain mid where
    one: "dilution_step pipette v mix_volume wells mix_steps dispense_height blowout_height
       do_blowout always_get_new_tip j st = Inr mid" and
    more: "dilution_steps pipette v mix_volume wells mix_steps dispense_height blowout_height
       do_blowout always_get_new_tip [Suc j..<m] mid = Inr st1"
    unfolding up by (auto split: sum.splits)
  have in_range: "j + 1 < length wells" using lt assms(4) by simp
  then have nt: "\<not> is_trash (wells ! (j + 1))" using assms(5) by simp
  have s1: "shifted (ledger st)
      (\<lambda>key n. credit (wells ! (j + 1)) v key n - credit (wells ! j) v key n) (ledger mid)"
    using one assms(2) in_range nt by (rule dilution_step_ledger)
  have s2: "shifted (ledger mid)
      (\<lambda>key n. credit (wells ! m) v key n - credit (wells ! Suc j) v key n) (ledger st1)"
    using Suc.hyps(2) lt by (intro Suc.hyps(1) more) simp_all
  show ?case
    using shifted_trans [OF s1 s2] by (rule shifted_eq) simp
qed


section \<open>Properties of the distribute strategy\<close>

lemma pop_wells_eq:
  "pop_wells n wl temp = (temp @ take n (rev wl), rev (drop n (rev wl)))"
proof (induction n arbitrary: wl temp)
  case 0
  then show ?case by simp
next
  case (Suc n)
  show ?case
  proof (cases wl rule: rev_cases)
    case Nil
    then show ?thesis using Suc by simp
  next
    case (snoc ys y)
    then show ?thesis using Suc by simp
  qed
qed

lemma batches_Nil: "batches n [] = []"
  by (simp add: batches.simps)

lemma batches_step: "xs \<noteq> [] \<Longrightarrow> 0 < n \<Longrightarrow> batches n xs = take n xs # batches n (drop n xs)"
  by (subst batches.simps) simp

lemma batches_concat: "0 < n \<Longrightarrow> concat (batches n xs) = xs"
proof (induction n xs rule: batches.induct)
  case (1 n xs)
  show ?case
  proof (cases "xs = []")
    case True
    then show ?thesis by (simp add: batches_Nil)
  next
    case False
    with 1 show ?thesis by (simp add: batches_step)
  qed
qed

lemma batches_sizes: "0 < n \<Longrightarrow> b \<in> set (batches n xs) \<Longrightarrow> 1 \<le> length b \<and> length b \<le> n"
proof (induction n xs rule: batches.induct)
  case (1 n xs)
  show ?case
  proof (cases "xs = []")
    case True
    with 1 show ?thesis by (simp add: batches_Nil)
  next
    case False
    then have "1 \<le> length xs" by (cases xs) simp_all
    with 1 False show ?thesis by (auto simp: batches_step)
  qed
qed

lemma batches_total: "0 < n \<Longrightarrow> sum_list (map length (batches n xs)) = length xs"
  using batches_concat [of n xs] length_concat [of "batches n xs"] by simp

lemma distribute_batch_Nil:
  "\<exists>st1. distribute_batch pipette v source dispense_height offset_direction do_touch_tip
     dispense_rate inspect_tips [] st = Inr st1"
  by (simp add: distribute_batch_def Let_def)

lemma distribute_loop_returns:
  assumes "distribute_loop pipette v source dispense_height offset_direction do_touch_tip
     dispense_rate inspect_tips limit wl st = Some y"
  shows "wl = [] \<or> nat limit \<noteq> 0"
proof (rule distribute_loop.raw_induct
    [where P = "\<lambda>p tv s dh dir tt rate insp lim ws st0 r. ws = [] \<or> nat lim \<noteq> 0",
      OF _ assms])
  fix loop :: "instrument \<Rightarrow> real \<Rightarrow> target \<Rightarrow> real \<Rightarrow> string \<Rightarrow> bool \<Rightarrow> real \<Rightarrow> bool \<Rightarrow> int \<Rightarrow>
     target list \<Rightarrow> robot \<Rightarrow> (error + robot) option"
  fix p tv s dh dir tt rate insp lim ws st0 r
  assume ih: "\<And>p tv s dh dir tt rate insp lim ws st0 r.
      loop p tv s dh dir tt rate insp lim ws st0 = Some r \<Longrightarrow> ws = [] \<or> nat lim \<noteq> 0"
  assume step: "(if 0 < length ws
      then case pop_wells (nat lim) ws [] of
           (temp_transfer_list, remaining) \<Rightarrow>
             (case distribute_batch p tv s dh dir tt rate insp temp_transfer_list st0 of
                Inl e \<Rightarrow> Some (Inl e)
              | Inr st1 \<Rightarrow> loop p tv s dh dir tt rate insp lim remaining st1)
      else Some (Inr st0)) = Some r"
  show "ws = [] \<or> nat lim \<noteq> 0"
  proof (rule ccontr)
    assume "\<not> (ws = [] \<or> nat lim \<noteq> 0)"
    then have ne: "ws \<noteq> []" and z: "nat lim = 0" by simp_all
    obtain st1 where b: "distribute_batch p tv s dh dir tt rate insp [] st0 = Inr st1"
      using distribute_batch_Nil by blast
    from step ne z b have "loop p tv s dh dir tt rate insp lim ws st1 = Some r"
      by simp
    from ih [OF this] ne z show False by simp
  qed
qed

lemma distribute_loop_diverges:
  assumes "wl \<noteq> []" and "nat limit = 0"
  shows "distribute_loop pipette v source dispense_height offset_direction do_touch_tip
     dispense_rate inspect_tips limit wl st = None"
proof (cases "distribute_loop pipette v source dispense_height offset_direction do_touch_tip
     dispense_rate inspect_tips limit wl st")
  case None
  then show ?thesis .
next
  case (Some y)
  from distribute_loop_returns [OF this] assms show ?thesis by simp
qed

lemma distribute_loop_batches:
  assumes "0 < k" and "nat limit = k"
  shows "distribute_loop pipette v source dispense_height offset_direction do_touch_tip
       dispense_rate inspect_tips limit (rev xs) st
     = Some (run_batches pipette v source dispense_height offset_direction do_touch_tip
         dispense_rate inspect_tips (batches k xs) st)"
  using assms
proof (induction k xs arbitrary: st rule: batches.induct)
  case (1 k xs)
  show ?case
  proof (cases "xs = []")
    case True
    then show ?thesis
      by (subst distribute_loop.simps) (simp add: batches_Nil)
  next
    case False
    have pop: "pop_wells (nat limit) (rev xs) [] = (take k xs, rev (drop k xs))"
      unfolding pop_wells_eq 1(3) by simp
    have bs: "batches k xs = take k xs # batches k (drop k xs)"
      using False 1(2) by (rule batches_step)
    have ih: "distribute_loop pipette v source dispense_height offset_direction do_touch_tip
         dispense_rate inspect_tips limit (rev (drop k xs)) st1
       = Some (run_batches pipette v source dispense_height offset_direction do_touch_tip
           dispense_rate inspect_tips (batches k (drop k xs)) st1)" for st1
      using False 1(2,3) by (intro 1(1)) simp_all
    show ?thesis
      by (subst distribute_loop.simps) (simp add: False pop bs ih split: sum.splits)
  qed
qed


lemma even_split_bounds:
  fixes m :: int and n :: nat
  assumes "1 \<le> m" and "1 \<le> n"
  shows "1 \<le> \<lceil>real n / real_of_int m\<rceil>"
    and "1 \<le> \<lceil>real n / real_of_int \<lceil>real n / real_of_int m\<rceil>\<rceil>"
    and "\<lceil>real n / real_of_int \<lceil>real n / real_of_int m\<rceil>\<rceil> \<le> m"
proof -
  let ?g = "\<lceil>real n / real_of_int m\<rceil>"
  have mpos: "0 < real_of_int m" using assms by simp
  have pos: "0 < real n / real_of_int m" using assms by simp
  then show g: "1 \<le> ?g" by simp
  then have gpos: "0 < real_of_int ?g" by simp
  then have "0 < real n / real_of_int ?g" using assms by simp
  then show "1 \<le> \<lceil>real n / real_of_int ?g\<rceil>" by simp
  have "real n \<le> real_of_int ?g * real_of_int m"
    using le_of_int_ceiling [of "real n / real_of_int m"]
    unfolding pos_divide_le_eq [OF mpos] .
  then have "real n \<le> real_of_int m * real_of_int ?g"
    by (simp only: mult.commute)
  then have "real n / real_of_int ?g \<le> real_of_int m"
    unfolding pos_divide_le_eq [OF gpos] .
  then show "\<lceil>real n / real_of_int ?g\<rceil> \<le> m" by (rule ceiling_le)
qed

lemma wells_per_aspirate_unfold:
  "wells_per_aspirate pipette v split n =
     (if v = 0 then Inl ZeroDivisionError
      else if split then
        (if py_int (max_volume pipette * (1 - 0.1) / v) = 0 then Inl ZeroDivisionError
         else if \<lceil>real n / real_of_int (py_int (max_volume pipette * (1 - 0.1) / v))\<rceil> = 0
         then Inl ZeroDivisionError
         else Inr \<lceil>real n / real_of_int
                \<lceil>real n / real_of_int (py_int (max_volume pipette * (1 - 0.1) / v))\<rceil>\<rceil>)
      else Inr (py_int (max_volume pipette * (1 - 0.1) / v)))"
  unfolding wells_per_aspirate_def Let_def by (rule refl)

lemma py_int_floor: "0 \<le> r \<Longrightarrow> py_int r = \<lfloor>r\<rfloor>"
  by (simp add: py_int_def)

lemma capacity_nonneg:
  assumes "0 < v" and "v \<le> max_volume pipette"
  shows "0 \<le> max_volume pipette * (1 - 0.1) / v"
  using assms by simp

lemma wells_per_aspirate_plain:
  assumes "0 < v" and "v \<le> max_volume pipette"
  shows "wells_per_aspirate pipette v False n = Inr \<lfloor>max_volume pipette * (1 - 0.1) / v\<rfloor>"
  unfolding wells_per_aspirate_unfold py_int_floor [OF capacity_nonneg [OF assms]]
  using assms(1) by simp

lemma wells_per_aspirate_even:
  assumes "0 < v" and "v \<le> max_volume pipette"
    and "1 \<le> \<lfloor>max_volume pipette * (1 - 0.1) / v\<rfloor>" and "1 \<le> n"
  shows "wells_per_aspirate pipette v True n =
     Inr \<lceil>real n / real_of_int
           \<lceil>real n / real_of_int \<lfloor>max_volume pipette * (1 - 0.1) / v\<rfloor>\<rceil>\<rceil>"
proof -
  define m where "m = \<lfloor>max_volume pipette * (1 - 0.1) / v\<rfloor>"
  have m: "1 \<le> m" using assms(3) unfolding m_def .
  have m0: "m \<noteq> 0" using m by simp
  have g: "\<lceil>real n / real_of_int m\<rceil> \<noteq> 0"
    using even_split_bounds(1) [OF m assms(4)] by linarith
  have "wells_per_aspirate pipette v True n =
      (if v = 0 then Inl ZeroDivisionError
       else if m = 0 then Inl ZeroDivisionError
       else if \<lceil>real n / real_of_int m\<rceil> = 0 then Inl ZeroDivisionError
       else Inr \<lceil>real n / real_of_int \<lceil>real n / real_of_int m\<rceil>\<rceil>)"
    unfolding wells_per_aspirate_unfold py_int_floor [OF capacity_nonneg [OF assms(1,2)]] m_def
    by (simp only: if_True)
  also have "\<dots> = Inr \<lceil>real n / real_of_int \<lceil>real n / real_of_int m\<rceil>\<rceil>"
    using assms(1) m0 g by (simp only: if_False) simp
  finally show ?thesis unfolding m_def .
qed

lemma dispense_motion_commands:
  "\<exists>r. commands (dispense_motion w v x_offset y_offset dispense_height do_blowout
       dest_blowout_height do_touch_tip dispense_rate inspect_tips st) = commands st @ r"
  by (simp add: dispense_motion_def Let_def pipette_move_to_def pipette_dispense_def
      pipette_blow_out_def pipette_touch_tip_def protocol_delay_def)

lemma offset_dispense_commands:
  assumes "offset_dispense pipette well v offset_direction custom_offset_distance dispense_height
     do_blowout dest_blowout_height do_touch_tip dispense_rate inspect_tips st = Inr st1"
  shows "\<exists>r. commands st1 = commands st @ r"
  using assms dispense_motion_commands unfolding offset_dispense_def
  by (auto split: target.splits sum.splits prod.splits)

lemma distribute_dispenses_commands:
  "distribute_dispenses pipette v source dispense_height offset_direction do_touch_tip
     dispense_rate inspect_tips ws st = Inr st1 \<Longrightarrow> \<exists>r. commands st1 = commands st @ r"
proof (induction ws arbitrary: st)
  case Nil
  then show ?case by simp
next
  case (Cons w ws)
  from Cons.prems obtain st2 result where
    od: "offset_dispense pipette w v offset_direction None dispense_height False 8 do_touch_tip
           dispense_rate inspect_tips st = Inr st2" and
    more: "distribute_dispenses pipette v source dispense_height offset_direction do_touch_tip
           dispense_rate inspect_tips ws (st2\<lparr>ledger := result\<rparr>) = Inr st1"
    by (auto split: sum.splits)
  from offset_dispense_commands [OF od] obtain r1 where "commands st2 = commands st @ r1" ..
  moreover from Cons.IH [OF more] obtain r2 where
    "commands st1 = commands (st2\<lparr>ledger := result\<rparr>) @ r2" ..
  ultimately show ?case by simp
qed

lemma distribute_batch_aspirate:
  assumes "distribute_batch pipette v source dispense_height offset_direction do_touch_tip
     dispense_rate inspect_tips b st = Inr st1"
  shows "\<exists>r. commands st1 =
     commands st @
       Aspirate (v * real (length b) + max_volume pipette * 0.1 - current_volume st)
         (Some source) 1 # r"
proof -
  let ?a = "pipette_aspirate
      (v * real (length b) + max_volume pipette * 0.1 - current_volume st) (Some source) 1 st"
  let ?t = "if do_touch_tip then pipette_touch_tip None ?a else ?a"
  from assms have "distribute_dispenses pipette v source dispense_height offset_direction
      do_touch_tip dispense_rate inspect_tips b ?t = Inr st1"
    unfolding distribute_batch_def Let_def by simp
  from distribute_dispenses_commands [OF this] obtain r where "commands st1 = commands ?t @ r" ..
  then show ?thesis
    by (simp add: pipette_aspirate_def pipette_touch_tip_def)
qed


lemma distribute_loop_Some:
  assumes "1 \<le> limit"
  shows "distribute_loop pipette v source dispense_height offset_direction do_touch_tip
       dispense_rate inspect_tips limit dests st
     = Some (run_batches pipette v source dispense_height offset_direction do_touch_tip
         dispense_rate inspect_tips (batches (nat limit) (rev dests)) st)"
proof -
  have "0 < nat limit" using assms by simp
  from distribute_loop_batches [OF this refl, where xs = "rev dests"] show ?thesis
    by simp
qed

lemma custom_transfer_distribute_returns:
  assumes "wells_per_aspirate pipette v split (length dests) = Inr limit" and "1 \<le> limit"
  shows "custom_transfer pipette v source dests source_blowout_height dest_blowout_height
     dispense_height offset_direction prewet_tip drop_tip do_blowout do_touch_tip
     ''distribute'' dispense_rate inspect_tips split st \<noteq> None"
  unfolding custom_transfer_def Let_def
  by (simp add: assms(1) distribute_loop_Some [OF assms(2)] split: sum.splits)

lemma batches_18:
  assumes "length xs = 18"
  shows "map length (batches 9 xs) = [9, 9]"
proof -
  have ne: "xs \<noteq> []" "drop 9 xs \<noteq> []" using assms by auto
  have e: "drop 9 (drop 9 xs) = []" using assms by simp
  have "batches 9 xs = take 9 xs # batches 9 (drop 9 xs)"
    using ne(1) by (rule batches_step) simp
  also have "batches 9 (drop 9 xs) = take 9 (drop 9 xs) # batches 9 (drop 9 (drop 9 xs))"
    using ne(2) by (rule batches_step) simp
  also have "batches 9 (drop 9 (drop 9 xs)) = []"
    unfolding e by (rule batches_Nil)
  finally show ?thesis using assms by simp
qed

lemma example_limits:
  "wells_per_aspirate p300m 20 False 18 = Inr 13" "wells_per_aspirate p300m 20 True 18 = Inr 9"
  by code_simp+

lemma tight_capacity: "py_int (max_volume p20 * (1 - 0.1) / 19) = 0"
  by code_simp

lemma tight_limit: "wells_per_aspirate p20 19 False n = Inr 0"
  unfolding wells_per_aspirate_unfold tight_capacity by simp

lemma tight_limit_even: "wells_per_aspirate p20 19 True n = Inl ZeroDivisionError"
  unfolding wells_per_aspirate_unfold tight_capacity by simp

lemma example_capacity: "py_int (max_volume p300m * (1 - 0.1) / 20) = 13"
  by code_simp

lemma no_wells_even: "wells_per_aspirate p300m 20 True 0 = Inl ZeroDivisionError"
  unfolding wells_per_aspirate_unfold example_capacity by simp


section \<open>Claims\<close>

text \<open>
  C1. A single-channel adjustment of volume \<open>v\<close> takes \<open>v\<close> from the tracked volume of the
  source well and adds \<open>v\<close> to the tracked volume of the destination well, and changes no
  other well; when the destination is the trash, only the source changes. Over any sequence
  of single-channel adjustments that do not go to the trash, the sum of the tracked volumes of
  a plate grows by \<open>v\<close> for each transfer into it and shrinks by \<open>v\<close> for each transfer out of
  it, so it does not change when every transfer stays within one plate.
\<close>

theorem single_channel_conservation:
  "(adjust_well_volume v src dst 1 all_volumes = Inr result \<longrightarrow>
      shifted all_volumes
        (\<lambda>key n. (if is_trash (as_well dst) then 0 else credit (as_well dst) v key n)
                  - credit (as_well src) v key n) result \<and>
      tracked all_volumes (parent (as_well src)) (well_name (as_well src)) \<noteq> None) \<and>
   (adjust_all ts all_volumes = Inr final \<and> finite_ledger all_volumes \<and>
      (\<forall>(v, s, d) \<in> set ts. \<not> is_trash (as_well d)) \<longrightarrow>
      (\<forall>key. plate_total final key = plate_total all_volumes key
         + (\<Sum>(v, s, d) \<leftarrow> ts. (if key = parent (as_well d) then v else 0)
                             - (if key = parent (as_well s) then v else 0))) \<and>
      ((\<forall>(v, s, d) \<in> set ts. parent (as_well s) = parent (as_well d)) \<longrightarrow>
         (\<forall>key. plate_total final key = plate_total all_volumes key)))"
proof (intro conjI impI allI)
  assume "adjust_well_volume v src dst 1 all_volumes = Inr result"
  then show "shifted all_volumes
        (\<lambda>key n. (if is_trash (as_well dst) then 0 else credit (as_well dst) v key n)
                  - credit (as_well src) v key n) result"
    and "tracked all_volumes (parent (as_well src)) (well_name (as_well src)) \<noteq> None"
    by (rule adjust_single_shifted)+
next
  fix key
  assume "adjust_all ts all_volumes = Inr final \<and> finite_ledger all_volumes \<and>
      (\<forall>(v, s, d) \<in> set ts. \<not> is_trash (as_well d))"
  then show "plate_total final key = plate_total all_volumes key
         + (\<Sum>(v, s, d) \<leftarrow> ts. (if key = parent (as_well d) then v else 0)
                             - (if key = parent (as_well s) then v else 0))"
    by (intro adjust_all_total) simp_all
next
  fix key
  assume a: "adjust_all ts all_volumes = Inr final \<and> finite_ledger all_volumes \<and>
      (\<forall>(v, s, d) \<in> set ts. \<not> is_trash (as_well d))"
    and same: "\<forall>(v, s, d) \<in> set ts. parent (as_well s) = parent (as_well d)"
  have "(\<Sum>(v, s, d) \<leftarrow> ts. (if key = parent (as_well d) then v else 0)
                             - (if key = parent (as_well s) then v else 0)) = 0"
    using same by (intro sum_list_zero) auto
  moreover have "plate_total final key = plate_total all_volumes key
         + (\<Sum>(v, s, d) \<leftarrow> ts. (if key = parent (as_well d) then v else 0)
                             - (if key = parent (as_well s) then v else 0))"
    using a by (intro adjust_all_total) simp_all
  ultimately show "plate_total final key = plate_total all_volumes key" by simp
qed

theorem single_channel_conservation_witness:
  "adjust_well_volume 20 (Well (reservoir_well ''A1'')) (Well (deepwell_well ''B2'')) 1
       example_volumes
     = Inr (projr (adjust_well_volume 20 (Well (reservoir_well ''A1''))
              (Well (deepwell_well ''B2'')) 1 example_volumes)) \<and>
   tracked (projr (adjust_well_volume 20 (Well (reservoir_well ''A1''))
              (Well (deepwell_well ''B2'')) 1 example_volumes)) reservoir_key ''A1'' = Some (- 20) \<and>
   tracked (projr (adjust_well_volume 20 (Well (reservoir_well ''A1''))
              (Well (deepwell_well ''B2'')) 1 example_volumes)) deepwell_key ''B2'' = Some 20 \<and>
   adjust_all [(20, Well (reservoir_well ''A1''), Well (deepwell_well ''B2'')),
               (5, Well (reservoir_well ''A1''), Well (reservoir_well ''A2''))] example_volumes
     = Inr (projr (adjust_all [(20, Well (reservoir_well ''A1''), Well (deepwell_well ''B2'')),
               (5, Well (reservoir_well ''A1''), Well (reservoir_well ''A2''))] example_volumes)) \<and>
   plate_total (projr (adjust_all [(20, Well (reservoir_well ''A1''), Well (deepwell_well ''B2'')),
               (5, Well (reservoir_well ''A1''), Well (reservoir_well ''A2''))] example_volumes))
       reservoir_key
     = plate_total example_volumes reservoir_key - 20"
proof -
  let ?s = "Well (reservoir_well ''A1'')" and ?d = "Well (deepwell_well ''B2'')"
  let ?ts = "[(20::real, ?s, ?d), (5, ?s, Well (reservoir_well ''A2''))]"
  have "\<not> isl (adjust_well_volume 20 ?s ?d 1 example_volumes)"
    by code_simp
  then have run: "adjust_well_volume 20 ?s ?d 1 example_volumes
      = Inr (projr (adjust_well_volume 20 ?s ?d 1 example_volumes))"
    by simp
  have nt: "\<not> is_trash (as_well ?d)"
    by code_simp
  have s0: "tracked example_volumes reservoir_key ''A1'' = Some 0"
    by code_simp
  have d0: "tracked example_volumes deepwell_key ''B2'' = Some 0"
    by code_simp
  have names: "parent (as_well ?s) = reservoir_key" "well_name (as_well ?s) = ''A1''"
    "parent (as_well ?d) = deepwell_key" "well_name (as_well ?d) = ''B2''"
    "reservoir_key \<noteq> deepwell_key"
    by (simp_all add: as_well_def reservoir_well_def deepwell_well_def grid_well_def
        reservoir_key_def deepwell_key_def)
  from single_channel_conservation [where v = 20 and src = ?s and dst = ?d
        and all_volumes = example_volumes, THEN conjunct1, rule_format, OF run]
  have sh: "shifted example_volumes
        (\<lambda>key n. (if is_trash (as_well ?d) then 0 else credit (as_well ?d) 20 key n)
                  - credit (as_well ?s) 20 key n)
        (projr (adjust_well_volume 20 ?s ?d 1 example_volumes))"
    by simp
  have t1: "tracked (projr (adjust_well_volume 20 ?s ?d 1 example_volumes)) reservoir_key ''A1''
      = Some (- 20)"
    using sh s0 nt names unfolding shifted_def credit_def by simp
  have t2: "tracked (projr (adjust_well_volume 20 ?s ?d 1 example_volumes)) deepwell_key ''B2''
      = Some 20"
    using sh d0 nt names unfolding shifted_def credit_def by simp
  have "\<not> isl (adjust_all ?ts example_volumes)"
    by code_simp
  then have runs: "adjust_all ?ts example_volumes = Inr (projr (adjust_all ?ts example_volumes))"
    by simp
  have nts: "\<forall>(v, s, d) \<in> set ?ts. \<not> is_trash (as_well d)"
    by code_simp
  have names2: "parent (as_well (Well (reservoir_well ''A2''))) = reservoir_key"
    by (simp add: as_well_def reservoir_well_def grid_well_def)
  from single_channel_conservation [where all_volumes = example_volumes and ts = ?ts
        and final = "projr (adjust_all ?ts example_volumes)",
      THEN conjunct2, rule_format, OF conjI [OF runs conjI [OF finite_example_volumes nts]],
      THEN conjunct1, rule_format, of reservoir_key]
  have t3: "plate_total (projr (adjust_all ?ts example_volumes)) reservoir_key
     = plate_total example_volumes reservoir_key - 20"
    using names names2 by simp
  show ?thesis
    using run t1 t2 runs t3 by simp
qed

text \<open>
  C2. Between tracked plates whose columns have one well per row, an 8-channel adjustment of
  volume \<open>v\<close> succeeds whenever both sides are aligned and the ledger tracks the wells of
  their columns: any well of a 1-row plate, a well of row A of an 8-row plate, a well of row
  A or B of a 16-row plate (the trash needs nothing). Whenever it succeeds it first fans \<open>-v\<close>
  out at the source and then, unless the destination is the trash, fans \<open>v\<close> out at the
  destination: a well of a 1-row plate changes by 8 times the volume; on an 8-row plate each
  of the 8 wells of the column changes by the volume; on a 16-row plate each of the 8 wells of
  every other row of the column, from the start row on, changes by the volume.
\<close>

theorem multichannel_fan_out:
  assumes sp: "all_volumes (parent (as_well src)) = Some (sp, sv)" "well_formed sp"
    and dp: "\<not> is_trash (as_well dst) \<longrightarrow>
               all_volumes (parent (as_well dst)) = Some (dp, dv) \<and> well_formed dp"
  shows "(aligned sp (as_well src) \<and> covered sv sp (as_well src) \<and>
            (\<not> is_trash (as_well dst) \<longrightarrow>
               aligned dp (as_well dst) \<and> covered dv dp (as_well dst)) \<longrightarrow>
            (\<exists>result. adjust_well_volume v src dst 8 all_volumes = Inr result)) \<and>
         (\<forall>result. adjust_well_volume v src dst 8 all_volumes = Inr result \<longrightarrow>
            (\<exists>mid. fanned all_volumes (- v) sp (as_well src) mid \<and>
               (if is_trash (as_well dst) then result = mid
                else fanned mid v dp (as_well dst) result)))"
proof (intro conjI impI allI)
  assume a: "aligned sp (as_well src) \<and> covered sv sp (as_well src) \<and>
            (\<not> is_trash (as_well dst) \<longrightarrow>
               aligned dp (as_well dst) \<and> covered dv dp (as_well dst))"
  have "\<not> is_trash (as_well dst) \<longrightarrow>
      all_volumes (parent (as_well dst)) = Some (dp, dv) \<and>
      aligned dp (as_well dst) \<and> covered dv dp (as_well dst)"
    using a dp by blast
  with sp(1) a show "\<exists>result. adjust_well_volume v src dst 8 all_volumes = Inr result"
    by (intro multichannel_succeeds) blast+
next
  fix result
  assume "adjust_well_volume v src dst 8 all_volumes = Inr result"
  then show "\<exists>mid. fanned all_volumes (- v) sp (as_well src) mid \<and>
               (if is_trash (as_well dst) then result = mid
                else fanned mid v dp (as_well dst) result)"
    using sp dp by (rule multichannel_effect)
qed

theorem multichannel_fan_out_witness:
  "(\<exists>result. adjust_well_volume 40 (Well (deepwell_well ''A1'')) (Well (deepwell_well ''A2'')) 8
       example_volumes = Inr result) \<and>
   map (tracked (projr (adjust_well_volume 40 (Well (deepwell_well ''A1''))
          (Well (deepwell_well ''A2'')) 8 example_volumes)) deepwell_key)
       [''A1'', ''B1'', ''D1'', ''H1'', ''A2'', ''B2'', ''D2'', ''H2'']
     = [Some (- 40), Some (- 40), Some (- 40), Some (- 40),
        Some 40, Some 40, Some 40, Some 40] \<and>
   (\<exists>result. adjust_well_volume 40 (Well (reservoir_well ''A1'')) (Well (assay_well ''B2'')) 8
       example_volumes = Inr result) \<and>
   (\<exists>mid. fanned example_volumes (- 40) reservoir_plate (reservoir_well ''A1'') mid \<and>
      fanned mid 40 assay_plate (assay_well ''B2'')
        (projr (adjust_well_volume 40 (Well (reservoir_well ''A1''))
              (Well (assay_well ''B2'')) 8 example_volumes))) \<and>
   tracked (projr (adjust_well_volume 40 (Well (reservoir_well ''A1''))
              (Well (assay_well ''B2'')) 8 example_volumes)) reservoir_key ''A1'' = Some (- 320) \<and>
   map (tracked (projr (adjust_well_volume 40 (Well (reservoir_well ''A1''))
              (Well (assay_well ''B2'')) 8 example_volumes)) assay_key)
       [''A2'', ''B2'', ''C2'', ''D2'', ''N2'', ''O2'', ''P2'', ''B1'']
     = [Some 0, Some 40, Some 0, Some 40, Some 40, Some 0, Some 40, Some 0] \<and>
   (\<exists>result. adjust_well_volume 40 (Well (assay_well ''A1'')) (Well (reservoir_well ''A2'')) 8
       example_volumes = Inr result) \<and>
   tracked (projr (adjust_well_volume 40 (Well (assay_well ''A1''))
              (Well (reservoir_well ''A2'')) 8 example_volumes)) reservoir_key ''A2'' = Some 320 \<and>
   map (tracked (projr (adjust_well_volume 40 (Well (assay_well ''A1''))
              (Well (reservoir_well ''A2'')) 8 example_volumes)) assay_key)
       [''A1'', ''B1'', ''C1'', ''O1'', ''P1'']
     = [Some (- 40), Some 0, Some (- 40), Some (- 40), Some 0]"
proof -
  let ?r1 = "adjust_well_volume 40 (Well (deepwell_well ''A1'')) (Well (deepwell_well ''A2'')) 8
      example_volumes"
  let ?r2 = "adjust_well_volume 40 (Well (reservoir_well ''A1'')) (Well (assay_well ''B2'')) 8
      example_volumes"
  let ?r3 = "adjust_well_volume 40 (Well (assay_well ''A1'')) (Well (reservoir_well ''A2'')) 8
      example_volumes"
  have nt: "\<not> is_trash (as_well (Well (deepwell_well ''A2'')))"
    "\<not> is_trash (as_well (Well (assay_well ''B2'')))"
    "\<not> is_trash (as_well (Well (reservoir_well ''A2'')))"
    by code_simp+
  have wells: "as_well (Well (deepwell_well n)) = deepwell_well n"
    "as_well (Well (reservoir_well n)) = reservoir_well n"
    "as_well (Well (assay_well n)) = assay_well n" for n
    by (simp_all add: as_well_def)
  have s1: "\<exists>result. ?r1 = Inr result"
    using multichannel_fan_out [where all_volumes = example_volumes and v = 40
        and src = "Well (deepwell_well ''A1'')" and dst = "Well (deepwell_well ''A2'')"
        and sp = deepwell_plate and sv = "zero_volumes deepwell_plate"
        and dp = deepwell_plate and dv = "zero_volumes deepwell_plate", THEN conjunct1]
      example_registered example_parents well_formed_examples example_aligned example_covered
    by (simp add: wells)
  have s2: "\<exists>result. ?r2 = Inr result"
    using multichannel_fan_out [where all_volumes = example_volumes and v = 40
        and src = "Well (reservoir_well ''A1'')" and dst = "Well (assay_well ''B2'')"
        and sp = reservoir_plate and sv = "zero_volumes reservoir_plate"
        and dp = assay_plate and dv = "zero_volumes assay_plate", THEN conjunct1]
      example_registered example_parents well_formed_examples example_aligned example_covered
    by (simp add: wells)
  have s3: "\<exists>result. ?r3 = Inr result"
    using multichannel_fan_out [where all_volumes = example_volumes and v = 40
        and src = "Well (assay_well ''A1'')" and dst = "Well (reservoir_well ''A2'')"
        and sp = assay_plate and sv = "zero_volumes assay_plate"
        and dp = reservoir_plate and dv = "zero_volumes reservoir_plate", THEN conjunct1]
      example_registered example_parents well_formed_examples example_aligned example_covered
    by (simp add: wells)
  from s2 have run2: "?r2 = Inr (projr ?r2)" by auto
  have fan: "\<exists>mid. fanned example_volumes (- 40) reservoir_plate (reservoir_well ''A1'') mid \<and>
      fanned mid 40 assay_plate (assay_well ''B2'') (projr ?r2)"
    using multichannel_fan_out [where all_volumes = example_volumes and v = 40
        and src = "Well (reservoir_well ''A1'')" and dst = "Well (assay_well ''B2'')"
        and sp = reservoir_plate and sv = "zero_volumes reservoir_plate"
        and dp = assay_plate and dv = "zero_volumes assay_plate", THEN conjunct2,
        rule_format, OF _ _ _ run2]
      example_registered example_parents well_formed_examples nt
    by (simp add: wells)
  have v1: "map (tracked (projr ?r1) deepwell_key)
       [''A1'', ''B1'', ''D1'', ''H1'', ''A2'', ''B2'', ''D2'', ''H2'']
     = [Some (- 40), Some (- 40), Some (- 40), Some (- 40),
        Some 40, Some 40, Some 40, Some 40]"
    by code_simp
  have v2: "tracked (projr ?r2) reservoir_key ''A1'' = Some (- 320)"
    by code_simp
  have v3: "map (tracked (projr ?r2) assay_key)
       [''A2'', ''B2'', ''C2'', ''D2'', ''N2'', ''O2'', ''P2'', ''B1'']
     = [Some 0, Some 40, Some 0, Some 40, Some 40, Some 0, Some 40, Some 0]"
    by code_simp
  have v4: "tracked (projr ?r3) reservoir_key ''A2'' = Some 320"
    by code_simp
  have v5: "map (tracked (projr ?r3) assay_key) [''A1'', ''B1'', ''C1'', ''O1'', ''P1'']
     = [Some (- 40), Some 0, Some (- 40), Some (- 40), Some 0]"
    by code_simp
  show ?thesis
    using s1 v1 s2 fan v2 v3 s3 v4 v5 by (intro conjI)
qed

text \<open>
  C3, as stated, fails where the limit is 0, and for an even split of no wells. With the p20
  pipette (1 to 20 ul) and a transfer volume of 19 the limit is \<open>floor(20 * 0.9 / 19) = 0\<close>:
  every round of the loop pops no well and the transfer to one well never returns, so no
  batches add up to the number of destinations; with an even split the same call ends in a
  \<open>ZeroDivisionError\<close>, as does an even split of an empty destination list.
\<close>

theorem distribute_counterexample:
  "min_volume p20 \<le> 19 \<and> 19 \<le> max_volume p20 \<and>
   wells_per_aspirate p20 19 False 1 = Inr 0 \<and>
   custom_transfer p20 19 (Well (reservoir_well ''A1'')) [Well (assay_well ''A1'')] 25 8 1
     ''center'' True True True True ''distribute'' 1 False False (idle example_volumes) = None \<and>
   custom_transfer p20 19 (Well (reservoir_well ''A1'')) [Well (assay_well ''A1'')] 25 8 1
     ''center'' True True True True ''distribute'' 1 False True (idle example_volumes)
     = Some (Inl ZeroDivisionError) \<and>
   custom_transfer p300m 20 (Well (reservoir_well ''A1'')) [] 25 8 1
     ''center'' True True True True ''distribute'' 1 False True (idle example_volumes)
     = Some (Inl ZeroDivisionError)"
proof (intro conjI)
  show "min_volume p20 \<le> 19" "19 \<le> max_volume p20"
    by (simp_all add: p20_def)
  show "wells_per_aspirate p20 19 False 1 = Inr 0"
    by (rule tight_limit)
  have range: "(19::real) \<le> max_volume p20 \<and> min_volume p20 \<le> 19"
    by (simp add: p20_def)
  show "custom_transfer p20 19 (Well (reservoir_well ''A1'')) [Well (assay_well ''A1'')] 25 8 1
     ''center'' True True True True ''distribute'' 1 False False (idle example_volumes) = None"
    unfolding custom_transfer_def Let_def
    by (simp add: range tight_limit distribute_loop_diverges)
  show "custom_transfer p20 19 (Well (reservoir_well ''A1'')) [Well (assay_well ''A1'')] 25 8 1
     ''center'' True True True True ''distribute'' 1 False True (idle example_volumes)
     = Some (Inl ZeroDivisionError)"
    unfolding custom_transfer_def Let_def
    by (simp add: range tight_limit_even)
  have range2: "(20::real) \<le> max_volume p300m \<and> min_volume p300m \<le> 20"
    by (simp add: p300m_def)
  show "custom_transfer p300m 20 (Well (reservoir_well ''A1'')) [] 25 8 1
     ''center'' True True True True ''distribute'' 1 False True (idle example_volumes)
     = Some (Inl ZeroDivisionError)"
    unfolding custom_transfer_def Let_def
    by (simp add: range2 no_wells_even)
qed

text \<open>
  C3, amended. For a transfer volume \<open>v\<close> with \<open>0 < v \<le> max_volume\<close>, the limit of the
  distribute strategy is \<open>floor(max_volume * (1 - 0.1) / v)\<close>; with an even split, a limit of
  at least 1 and at least one destination it becomes
  \<open>ceil(total / ceil(total / limit))\<close>, which is at least 1 and at most the limit. With a
  limit of at least 1 the loop ends: it runs the batches of the reversed destination list one
  after the other, every batch has at least one well and at most the limit, and their sizes
  add up to the number of destinations; the transfer as a whole returns. For a volume of 20,
  a maximum of 300 and 18 destinations the limit is 13, with an even split 9, and the batches
  are two of 9. A batch that runs to its end has first sent the aspirate of its size times
  \<open>v\<close> plus \<open>max_volume * 0.1\<close> less the volume in the tip.
\<close>

theorem distribute_batching:
  assumes "0 < v" and "v \<le> max_volume pipette"
  shows
    "wells_per_aspirate pipette v False n = Inr \<lfloor>max_volume pipette * (1 - 0.1) / v\<rfloor> \<and>
     (1 \<le> \<lfloor>max_volume pipette * (1 - 0.1) / v\<rfloor> \<and> 1 \<le> n \<longrightarrow>
        wells_per_aspirate pipette v True n =
          Inr \<lceil>real n / real_of_int
                \<lceil>real n / real_of_int \<lfloor>max_volume pipette * (1 - 0.1) / v\<rfloor>\<rceil>\<rceil> \<and>
        1 \<le> \<lceil>real n / real_of_int
                \<lceil>real n / real_of_int \<lfloor>max_volume pipette * (1 - 0.1) / v\<rfloor>\<rceil>\<rceil> \<and>
        \<lceil>real n / real_of_int
            \<lceil>real n / real_of_int \<lfloor>max_volume pipette * (1 - 0.1) / v\<rfloor>\<rceil>\<rceil>
          \<le> \<lfloor>max_volume pipette * (1 - 0.1) / v\<rfloor>) \<and>
     (1 \<le> limit \<longrightarrow>
        distribute_loop pipette v source dispense_height offset_direction do_touch_tip
            dispense_rate inspect_tips limit dests st
          = Some (run_batches pipette v source dispense_height offset_direction do_touch_tip
              dispense_rate inspect_tips (batches (nat limit) (rev dests)) st) \<and>
        concat (batches (nat limit) (rev dests)) = rev dests \<and>
        (\<forall>b \<in> set (batches (nat limit) (rev dests)). 1 \<le> length b \<and> int (length b) \<le> limit) \<and>
        sum_list (map length (batches (nat limit) (rev dests))) = length dests \<and>
        (wells_per_aspirate pipette v split (length dests) = Inr limit \<longrightarrow>
           custom_transfer pipette v source dests source_blowout_height dest_blowout_height
             dispense_height offset_direction prewet_tip drop_tip do_blowout do_touch_tip
             ''distribute'' dispense_rate inspect_tips split st \<noteq> None)) \<and>
     (distribute_batch pipette v source dispense_height offset_direction do_touch_tip
          dispense_rate inspect_tips batch st = Inr final \<longrightarrow>
        (\<exists>r. commands final =
           commands st @
             Aspirate (v * real (length batch) + max_volume pipette * 0.1 - current_volume st)
               (Some source) 1 # r)) \<and>
     wells_per_aspirate p300m 20 False 18 = Inr 13 \<and>
     wells_per_aspirate p300m 20 True 18 = Inr 9 \<and>
     (length dests = 18 \<longrightarrow> map length (batches 9 (rev dests)) = [9, 9])"
proof (intro conjI impI ballI; (elim conjE)?)
  show "wells_per_aspirate pipette v False n = Inr \<lfloor>max_volume pipette * (1 - 0.1) / v\<rfloor>"
    using assms by (rule wells_per_aspirate_plain)
next
  assume m: "1 \<le> \<lfloor>max_volume pipette * (1 - 0.1) / v\<rfloor>" and n: "1 \<le> n"
  show "wells_per_aspirate pipette v True n =
      Inr \<lceil>real n / real_of_int
            \<lceil>real n / real_of_int \<lfloor>max_volume pipette * (1 - 0.1) / v\<rfloor>\<rceil>\<rceil>"
    using assms m n by (rule wells_per_aspirate_even)
  show "1 \<le> \<lceil>real n / real_of_int
            \<lceil>real n / real_of_int \<lfloor>max_volume pipette * (1 - 0.1) / v\<rfloor>\<rceil>\<rceil>"
    using m n by (rule even_split_bounds(2))
  show "\<lceil>real n / real_of_int
            \<lceil>real n / real_of_int \<lfloor>max_volume pipette * (1 - 0.1) / v\<rfloor>\<rceil>\<rceil>
          \<le> \<lfloor>max_volume pipette * (1 - 0.1) / v\<rfloor>"
    using m n by (rule even_split_bounds(3))
next
  assume l: "1 \<le> limit"
  then have pos: "0 < nat limit" by simp
  show "distribute_loop pipette v source dispense_height offset_direction do_touch_tip
            dispense_rate inspect_tips limit dests st
          = Some (run_batches pipette v source dispense_height offset_direction do_touch_tip
              dispense_rate inspect_tips (batches (nat limit) (rev dests)) st)"
    using l by (rule distribute_loop_Some)
  show "concat (batches (nat limit) (rev dests)) = rev dests"
    using pos by (rule batches_concat)
  show "sum_list (map length (batches (nat limit) (rev dests))) = length dests"
    using batches_total [OF pos, of "rev dests"] by simp
  {
    fix b assume "b \<in> set (batches (nat limit) (rev dests))"
    from batches_sizes [OF pos this] l
    show "1 \<le> length b" and "int (length b) \<le> limit" by linarith+
  }
  {
    assume "wells_per_aspirate pipette v split (length dests) = Inr limit"
    then show "custom_transfer pipette v source dests source_blowout_height dest_blowout_height
             dispense_height offset_direction prewet_tip drop_tip do_blowout do_touch_tip
             ''distribute'' dispense_rate inspect_tips split st \<noteq> None"
      using l by (rule custom_transfer_distribute_returns)
  }
next
  assume "distribute_batch pipette v source dispense_height offset_direction do_touch_tip
          dispense_rate inspect_tips batch st = Inr final"
  then show "\<exists>r. commands final =
           commands st @
             Aspirate (v * real (length batch) + max_volume pipette * 0.1 - current_volume st)
               (Some source) 1 # r"
    by (rule distribute_batch_aspirate)
next
  show "wells_per_aspirate p300m 20 False 18 = Inr 13"
    and "wells_per_aspirate p300m 20 True 18 = Inr 9"
    by (rule example_limits)+
next
  assume "length dests = 18"
  then have "length (rev dests) = 18" by simp
  then show "map length (batches 9 (rev dests)) = [9, 9]" by (rule batches_18)
qed


theorem distribute_batching_witness:
  "(0::real) < 20 \<and> 20 \<le> max_volume p300m \<and>
   wells_per_aspirate p300m 20 False 18 = Inr \<lfloor>max_volume p300m * (1 - 0.1) / 20\<rfloor> \<and>
   \<lfloor>max_volume p300m * (1 - 0.1) / 20\<rfloor> = 13 \<and>
   wells_per_aspirate p300m 20 True 18 =
     Inr \<lceil>real 18 / real_of_int \<lceil>real 18 / real_of_int \<lfloor>max_volume p300m * (1 - 0.1) / 20\<rfloor>\<rceil>\<rceil> \<and>
   distribute_loop p300m 20 (bottom (reservoir_well ''A1'') 1) 6 ''right'' False 1 False 9
       (replicate 18 (Well (assay_well ''A1''))) (idle example_volumes)
     = Some (run_batches p300m 20 (bottom (reservoir_well ''A1'') 1) 6 ''right'' False 1 False
         (batches (nat 9) (rev (replicate 18 (Well (assay_well ''A1''))))) (idle example_volumes)) \<and>
   map length (batches 9 (rev (replicate 18 (Well (assay_well ''A1''))))) = [9, 9] \<and>
   custom_transfer p300m 20 (bottom (reservoir_well ''A1'') 1)
       (replicate 18 (Well (assay_well ''A1''))) 25 8 6 ''right'' True True False False
       ''distribute'' 1 False True (idle example_volumes) \<noteq> None \<and>
   distribute_batch p300m 20 (bottom (reservoir_well ''A1'') 1) 6 ''right'' False 1 False
       [Well (assay_well ''A1'')] (idle example_volumes)
     = Inr (projr (distribute_batch p300m 20 (bottom (reservoir_well ''A1'') 1) 6 ''right''
              False 1 False [Well (assay_well ''A1'')] (idle example_volumes))) \<and>
   (\<exists>r. commands (projr (distribute_batch p300m 20 (bottom (reservoir_well ''A1'') 1) 6 ''right''
              False 1 False [Well (assay_well ''A1'')] (idle example_volumes))) =
      commands (idle example_volumes) @
        Aspirate (20 * real (length [Well (assay_well ''A1'')]) + max_volume p300m * 0.1
                  - current_volume (idle example_volumes))
          (Some (bottom (reservoir_well ''A1'') 1)) 1 # r)"
proof -
  let ?src = "bottom (reservoir_well ''A1'') 1"
  let ?ds = "replicate 18 (Well (assay_well ''A1''))"
  let ?st = "idle example_volumes"
  let ?b = "[Well (assay_well ''A1'')]"
  let ?run = "distribute_batch p300m 20 ?src 6 ''right'' False 1 False ?b ?st"
  have h1: "(0::real) < 20" by simp
  have h2: "20 \<le> max_volume p300m" by (simp add: p300m_def)
  have "\<not> isl ?run" by code_simp
  then have run: "?run = Inr (projr ?run)" by simp
  have cap: "\<lfloor>max_volume p300m * (1 - 0.1) / 20\<rfloor> = 13" by code_simp
  have m: "1 \<le> \<lfloor>max_volume p300m * (1 - 0.1) / 20\<rfloor>" unfolding cap by simp
  have n: "1 \<le> (18::nat)" by simp
  have l: "(1::int) \<le> 9" by simp
  have len: "length ?ds = 18" by simp
  have lim: "wells_per_aspirate p300m 20 True (length ?ds) = Inr 9"
    unfolding len by (rule example_limits(2))
  note T = distribute_batching [where pipette = p300m and v = 20 and n = 18 and limit = 9
      and source = ?src and dispense_height = 6 and offset_direction = "''right''"
      and do_touch_tip = False and dispense_rate = 1 and inspect_tips = False and dests = ?ds
      and st = ?st and split = True and batch = ?b and final = "projr ?run"
      and source_blowout_height = 25 and dest_blowout_height = 8 and prewet_tip = True
      and drop_tip = True and do_blowout = False, OF h1 h2]
  note a = T [THEN conjunct1]
  note b = T [THEN conjunct2, THEN conjunct1, rule_format, OF conjI [OF m n], THEN conjunct1]
  note c = T [THEN conjunct2, THEN conjunct2, THEN conjunct1, rule_format, OF l]
  note c1 = c [THEN conjunct1]
  note c5 = c [THEN conjunct2, THEN conjunct2, THEN conjunct2, THEN conjunct2, rule_format, OF lim]
  note e = T [THEN conjunct2, THEN conjunct2, THEN conjunct2, THEN conjunct1, rule_format, OF run]
  note d = T [THEN conjunct2, THEN conjunct2, THEN conjunct2, THEN conjunct2, THEN conjunct2,
      THEN conjunct2, rule_format, OF len]
  show ?thesis
    using h1 h2 a cap b c1 d c5 run e by (intro conjI)
qed

text \<open>
  C4, as stated, fails: an 8-channel adjustment from the rack of 4 rows to a well of row B of
  the 8-row plate ends in the assertion error on the alignment of the destination, and one
  from the rack to the trash ends in the \<open>UnboundLocalError\<close> of the well list that no branch
  assigned. The function has no check of the number of rows.
\<close>

theorem unsupported_rows_counterexample:
  "length (rows tuberack_plate) = 4 \<and>
   adjust_well_volume 40 (Well (tuberack_well ''A1'')) (Well (deepwell_well ''B1'')) 8
       volumes_with_rack
     = Inl (AssertionError ''Multiwell transfers to an row plate must start at row A'') \<and>
   adjust_well_volume 40 (Well (tuberack_well ''A1'')) (Well trash_well) 8 volumes_with_rack
     = Inl (UnboundLocalError ''source_well_list'')"
proof (intro conjI)
  show "length (rows tuberack_plate) = 4"
    by (simp add: tuberack_plate_def grid_plate_def)
  show "adjust_well_volume 40 (Well (tuberack_well ''A1'')) (Well (deepwell_well ''B1'')) 8
       volumes_with_rack
     = Inl (AssertionError ''Multiwell transfers to an row plate must start at row A'')"
    by (rule isl_projl) code_simp+
  show "adjust_well_volume 40 (Well (tuberack_well ''A1'')) (Well trash_well) 8 volumes_with_rack
     = Inl (UnboundLocalError ''source_well_list'')"
    by (rule isl_projl) code_simp+
qed

text \<open>
  C4, amended. An 8-channel adjustment whose source plate, or whose destination plate when
  the destination is not the trash, is tracked with a number of rows other than 1, 8 and 16
  fails and returns no ledger. When the source plate is the one and the destination is the
  trash, the error is the \<open>UnboundLocalError\<close> of \<open>source_well_list\<close>; when the destination
  plate is the one and the source is a tracked well of a 1-row plate, it is the
  \<open>UnboundLocalError\<close> of \<open>destination_well_list\<close>.
\<close>

theorem unsupported_rows_fail:
  "(all_volumes (parent (as_well src)) = Some (sp, sv) \<and> length (rows sp) \<notin> {1, 8, 16} \<longrightarrow>
      (\<exists>e. adjust_well_volume v src dst 8 all_volumes = Inl e) \<and>
      (well_name (as_well src) \<noteq> [] \<and> is_trash (as_well dst) \<longrightarrow>
         adjust_well_volume v src dst 8 all_volumes
           = Inl (UnboundLocalError ''source_well_list''))) \<and>
   (\<not> is_trash (as_well dst) \<and> all_volumes (parent (as_well dst)) = Some (dp, dv) \<and>
      length (rows dp) \<notin> {1, 8, 16} \<longrightarrow>
      (\<exists>e. adjust_well_volume v src dst 8 all_volumes = Inl e) \<and>
      (well_name (as_well dst) \<noteq> [] \<and> all_volumes (parent (as_well src)) = Some (sp, sv) \<and>
       length (rows sp) = 1 \<and> sv (well_name (as_well src)) \<noteq> None \<and>
       well_name (as_well src) \<noteq> [] \<longrightarrow>
         adjust_well_volume v src dst 8 all_volumes
           = Inl (UnboundLocalError ''destination_well_list'')))"
proof (intro conjI impI; (elim conjE)?)
  assume "all_volumes (parent (as_well src)) = Some (sp, sv)" "length (rows sp) \<notin> {1, 8, 16}"
  then show "\<exists>e. adjust_well_volume v src dst 8 all_volumes = Inl e"
    by (rule unsupported_source_fails)
next
  assume "all_volumes (parent (as_well src)) = Some (sp, sv)" "length (rows sp) \<notin> {1, 8, 16}"
    "well_name (as_well src) \<noteq> []" "is_trash (as_well dst)"
  then show "adjust_well_volume v src dst 8 all_volumes
      = Inl (UnboundLocalError ''source_well_list'')"
    by (rule unsupported_source_to_trash)
next
  assume "\<not> is_trash (as_well dst)" "all_volumes (parent (as_well dst)) = Some (dp, dv)"
    "length (rows dp) \<notin> {1, 8, 16}"
  then show "\<exists>e. adjust_well_volume v src dst 8 all_volumes = Inl e"
    by (rule unsupported_destination_fails)
next
  assume "\<not> is_trash (as_well dst)" "all_volumes (parent (as_well dst)) = Some (dp, dv)"
    "length (rows dp) \<notin> {1, 8, 16}" "well_name (as_well dst) \<noteq> []"
    "all_volumes (parent (as_well src)) = Some (sp, sv)" "length (rows sp) = 1"
    "sv (well_name (as_well src)) \<noteq> None" "well_name (as_well src) \<noteq> []"
  then show "adjust_well_volume v src dst 8 all_volumes
      = Inl (UnboundLocalError ''destination_well_list'')"
    by (rule unsupported_destination_after_source)
qed

theorem unsupported_rows_fail_witness:
  "volumes_with_rack (parent (as_well (Well (tuberack_well ''A1''))))
     = Some (tuberack_plate, zero_volumes tuberack_plate) \<and>
   length (rows tuberack_plate) \<notin> {1, 8, 16} \<and>
   well_name (as_well (Well (tuberack_well ''A1''))) \<noteq> [] \<and>
   is_trash (as_well (Well trash_well)) \<and>
   adjust_well_volume 40 (Well (tuberack_well ''A1'')) (Well trash_well) 8 volumes_with_rack
     = Inl (UnboundLocalError ''source_well_list'') \<and>
   \<not> is_trash (as_well (Well (tuberack_well ''A1''))) \<and>
   (\<exists>e. adjust_well_volume 40 (Well (reservoir_well ''A1'')) (Well (tuberack_well ''A1'')) 8
          volumes_with_rack = Inl e)"
proof -
  have reg: "volumes_with_rack (parent (as_well (Well (tuberack_well ''A1''))))
     = Some (tuberack_plate, zero_volumes tuberack_plate)"
    by (simp add: volumes_with_rack_def as_well_def tuberack_well_def grid_well_def)
  have rows: "length (rows tuberack_plate) \<notin> {1, 8, 16}"
    by (simp add: tuberack_plate_def grid_plate_def)
  have nm: "well_name (as_well (Well (tuberack_well ''A1''))) \<noteq> []"
    by (simp add: as_well_def tuberack_well_def grid_well_def)
  have tr: "is_trash (as_well (Well trash_well))"
    by code_simp
  have nt: "\<not> is_trash (as_well (Well (tuberack_well ''A1'')))"
    by code_simp
  note first = unsupported_rows_fail [where all_volumes = volumes_with_rack and v = 40
      and sp = tuberack_plate and sv = "zero_volumes tuberack_plate"
      and src = "Well (tuberack_well ''A1'')" and dst = "Well trash_well",
      THEN conjunct1, rule_format, OF conjI [OF reg rows], THEN conjunct2, rule_format,
      OF conjI [OF nm tr]]
  note second = unsupported_rows_fail [where all_volumes = volumes_with_rack and v = 40
      and dp = tuberack_plate and dv = "zero_volumes tuberack_plate"
      and src = "Well (reservoir_well ''A1'')" and dst = "Well (tuberack_well ''A1'')",
      THEN conjunct2, rule_format, OF conjI [OF nt conjI [OF reg rows]], THEN conjunct1]
  show ?thesis
    using reg rows nm tr nt first second by blast
qed

text \<open>
  C5. An 8-channel adjustment from or to a well of row B of the 8-row plate fails with the
  assertion error on the alignment. From or to a well of row C of the 16-row plate it fails
  with a \<open>NameError\<close> instead: the message of the assertion that fails names a variable
  (\<open>source_row\<close>, \<open>destination_row\<close>) that does not exist.
\<close>

theorem misaligned_start_rows:
  "adjust_well_volume 40 (Well (deepwell_well ''B1'')) (Well (assay_well ''A1'')) 8 example_volumes
     = Inl (AssertionError ''Multiwell transfers from an row plate must start at row A'') \<and>
   adjust_well_volume 40 (Well (reservoir_well ''A1'')) (Well (deepwell_well ''B1'')) 8 example_volumes
     = Inl (AssertionError ''Multiwell transfers to an row plate must start at row A'') \<and>
   adjust_well_volume 40 (Well (assay_well ''C1'')) (Well (deepwell_well ''A1'')) 8 example_volumes
     = Inl (NameError ''source_row'') \<and>
   adjust_well_volume 40 (Well (reservoir_well ''A1'')) (Well (assay_well ''C1'')) 8 example_volumes
     = Inl (NameError ''destination_row'')"
proof (intro conjI)
  show "adjust_well_volume 40 (Well (deepwell_well ''B1'')) (Well (assay_well ''A1'')) 8
      example_volumes
    = Inl (AssertionError ''Multiwell transfers from an row plate must start at row A'')"
    by (rule isl_projl) code_simp+
  show "adjust_well_volume 40 (Well (reservoir_well ''A1'')) (Well (deepwell_well ''B1'')) 8
      example_volumes
    = Inl (AssertionError ''Multiwell transfers to an row plate must start at row A'')"
    by (rule isl_projl) code_simp+
  show "adjust_well_volume 40 (Well (assay_well ''C1'')) (Well (deepwell_well ''A1'')) 8
      example_volumes = Inl (NameError ''source_row'')"
    by (rule isl_projl) code_simp+
  show "adjust_well_volume 40 (Well (reservoir_well ''A1'')) (Well (assay_well ''C1'')) 8
      example_volumes = Inl (NameError ''destination_row'')"
    by (rule isl_projl) code_simp+
qed

text \<open>
  C6. A serial dilution with a single-channel pipette over at least two wells, none of them
  on the trash, that runs to its end leaves the ledger as it was but for the first well, which
  has lost the transfer volume: every later well has received the volume and given it on,
  the last one to the trash. The mix before the dilution does not change the ledger.
\<close>

theorem serial_dilution_ledger:
  assumes run: "serial_dilution trash pipette v mix_volume wells mix_steps dispense_height
       blowout_height mix_before do_blowout always_get_new_tip st = Inr st1"
    and single: "channels pipette = 1" and len: "2 \<le> length wells"
    and tr: "is_trash trash" and nt: "\<forall>w \<in> set wells. \<not> is_trash w"
  shows "shifted (ledger st) (credit (hd wells) (- v)) (ledger st1) \<and>
         (\<forall>st0 st2. mix_first_well mix_volume wells mix_steps dispense_height blowout_height
              do_blowout st0 = Inr st2 \<longrightarrow> ledger st2 = ledger st0)"
proof
  let ?st0 = "if \<not> has_tip st then pipette_pick_up_tip st else st"
  let ?m = "length wells - 1"
  have l0: "ledger ?st0 = ledger st" by (simp add: ledger_primitives)
  from run obtain st2 where
    mix: "(if mix_before
           then mix_first_well mix_volume wells mix_steps dispense_height blowout_height
                  do_blowout ?st0
           else Inr ?st0) = Inr st2"
    unfolding serial_dilution_def Let_def by (auto split: sum.splits)
  have l2: "ledger st2 = ledger st"
    using mix l0 ledger_mix_first_well by (auto split: if_splits)
  from run mix obtain st3 where
    steps: "dilution_steps pipette v mix_volume wells mix_steps dispense_height blowout_height
       do_blowout always_get_new_tip [0..<?m] st2 = Inr st3"
    unfolding serial_dilution_def Let_def by (auto split: sum.splits)
  have i: "(if [0..<?m] = [] then None else Some (last [0..<?m])) = Some (?m - 1)"
    using len by simp
  have "?m - 1 + 1 = ?m" using len by simp
  then have ix: "index wells (?m - 1 + 1) = Inr (wells ! ?m)"
    using len unfolding index_def by simp
  note r = run [unfolded serial_dilution_def Let_def mix steps i ix sum.case option.case]
  from r obtain result where
    adj: "adjust_well_volume v (Well (wells ! ?m)) (Well trash) 1
            (ledger (pipette_aspirate v (Some (Well (wells ! ?m))) 1 st3)) = Inr result"
    and l1: "ledger st1 = result"
    unfolding single by (auto simp: ledger_primitives split: sum.splits)
  have s1: "shifted (ledger st2)
      (\<lambda>key n. credit (wells ! ?m) v key n - credit (wells ! 0) v key n) (ledger st3)"
    using steps single _ _ nt by (rule dilution_steps_ledger) (use len in simp_all)
  have s2: "shifted (ledger st3) (\<lambda>key n. 0 - credit (wells ! ?m) v key n) result"
    using adjust_single_shifted(1) [OF adj] tr
    by (simp add: as_well_def ledger_primitives)
  have hd: "hd wells = wells ! 0"
    using len by (cases wells) simp_all
  show "shifted (ledger st) (credit (hd wells) (- v)) (ledger st1)"
    using shifted_trans [OF s1 s2] unfolding l1 l2 hd
    by (rule shifted_eq) (simp add: credit_def)
  show "\<forall>st0 st2. mix_first_well mix_volume wells mix_steps dispense_height blowout_height
              do_blowout st0 = Inr st2 \<longrightarrow> ledger st2 = ledger st0"
    using ledger_mix_first_well by blast
qed


theorem serial_dilution_ledger_witness:
  "serial_dilution trash_well p20 100 100
       (map assay_well [''A1'', ''B1'', ''C1'', ''D1'', ''E1'']) 5 4 4 True False False
       (idle example_volumes)
     = Inr (projr (serial_dilution trash_well p20 100 100
              (map assay_well [''A1'', ''B1'', ''C1'', ''D1'', ''E1'']) 5 4 4 True False False
              (idle example_volumes))) \<and>
   channels p20 = 1 \<and> is_trash trash_well \<and>
   map (tracked (ledger (projr (serial_dilution trash_well p20 100 100
              (map assay_well [''A1'', ''B1'', ''C1'', ''D1'', ''E1'']) 5 4 4 True False False
              (idle example_volumes)))) assay_key)
       [''A1'', ''B1'', ''C1'', ''D1'', ''E1'']
     = [Some (- 100), Some 0, Some 0, Some 0, Some 0]"
proof -
  let ?wells = "map assay_well [''A1'', ''B1'', ''C1'', ''D1'', ''E1'']"
  let ?run = "serial_dilution trash_well p20 100 100 ?wells 5 4 4 True False False
      (idle example_volumes)"
  have "\<not> isl ?run"
    by code_simp
  then have run: "?run = Inr (projr ?run)"
    by simp
  have single: "channels p20 = 1"
    by (simp add: p20_def)
  have tr: "is_trash trash_well"
    by code_simp
  have nt: "\<forall>w \<in> set ?wells. \<not> is_trash w"
    by code_simp
  have before: "map (tracked (ledger (idle example_volumes)) assay_key)
      [''A1'', ''B1'', ''C1'', ''D1'', ''E1''] = [Some 0, Some 0, Some 0, Some 0, Some 0]"
    by code_simp
  have first: "parent (hd ?wells) = assay_key" "well_name (hd ?wells) = ''A1''"
    by (simp_all add: assay_well_def grid_well_def)
  from serial_dilution_ledger [OF run single _ tr nt]
  have "shifted (ledger (idle example_volumes)) (credit (hd ?wells) (- 100))
      (ledger (projr ?run))"
    by simp
  then have "map (tracked (ledger (projr ?run)) assay_key)
      [''A1'', ''B1'', ''C1'', ''D1'', ''E1''] = [Some (- 100), Some 0, Some 0, Some 0, Some 0]"
    using before unfolding shifted_def credit_def first by simp
  then show ?thesis
    using run single tr by simp
qed

text \<open>
  C7. For a well and a pipette with a tip profile (base diameter and taper), the edge offset
  fails with the assertion error on the geometry unless the height above the bottom is below
  the depth of the well, and otherwise it is
  \<open>(width - (base + (depth - height) * taper)) / 2 + 0.2\<close>; for a well of width 3.6 and
  depth 11.43, the p20 pipette and height 2 that is
  \<open>(3.6 - (0.9 + (11.43 - 2) * 0.083)) / 2 + 0.2\<close>.
\<close>

theorem edge_offset_formula:
  "(\<not> h < depth w \<longrightarrow>
      get_well_edge_offset pipette (Well w) h =
        Inl (AssertionError ''height_above_bottom is too high, pipette tip above well top'')) \<and>
   (h < depth w \<and> tip_dict (name pipette) = Some (base, taper) \<longrightarrow>
      get_well_edge_offset pipette (Well w) h =
        Inr ((width w - (base + (depth w - h) * taper)) / 2 + 0.2)) \<and>
   get_well_edge_offset p20 (Well (assay_well ''A1'')) 2 =
     Inr ((3.6 - (0.9 + (11.43 - 2) * 0.083)) / 2 + 0.2)"
  by (simp add: get_well_edge_offset_def Let_def tip_dict_def p20_def assay_well_def
      grid_well_def)

theorem edge_offset_formula_witness:
  "\<not> (12::real) < depth (assay_well ''A1'') \<and>
   get_well_edge_offset p300m (Well (assay_well ''A1'')) 12 =
     Inl (AssertionError ''height_above_bottom is too high, pipette tip above well top'') \<and>
   (6::real) < depth (assay_well ''A1'') \<and>
   tip_dict (name p300m) = Some (1.07, 0.093) \<and>
   get_well_edge_offset p300m (Well (assay_well ''A1'')) 6 =
     Inr ((width (assay_well ''A1'') - (1.07 + (depth (assay_well ''A1'') - 6) * 0.093)) / 2 + 0.2)"
proof -
  have d: "\<not> (12::real) < depth (assay_well ''A1'')" "(6::real) < depth (assay_well ''A1'')"
    by (simp_all add: assay_well_def grid_well_def)
  have t: "tip_dict (name p300m) = Some (1.07, 0.093)"
    by (simp add: tip_dict_def p300m_def)
  show ?thesis
    using d t
      edge_offset_formula [where h = 12 and w = "assay_well ''A1''" and pipette = p300m,
        THEN conjunct1, rule_format, OF d(1)]
      edge_offset_formula [where h = 6 and w = "assay_well ''A1''" and pipette = p300m,
        THEN conjunct2, THEN conjunct1, rule_format, OF conjI [OF d(2) t]]
    by simp
qed

text \<open>
  C8. With a blow-out, the commands of a dispense after the liquid is released are: back to
  the centre of the well at the dispense height, to the centre at the blow-out height, to the
  lateral offset of the dispense at the dispense height again, the blow-out, and back to the
  centre at the blow-out height. The blow-out is at the dispense height, not at the blow-out
  height.
\<close>

theorem blow_out_position:
  "commands (dispense_motion w transfer_volume x_offset y_offset dispense_height True
       dest_blowout_height False dispense_rate False st) =
     commands st @
       [MoveTo (Location (Point 0 0 dispense_height) w) False,
        MoveTo (Location (Point x_offset y_offset dispense_height) w) True,
        Dispense transfer_volume None dispense_rate,
        MoveTo (Location (Point 0 0 dispense_height) w) True,
        MoveTo (Location (Point 0 0 dest_blowout_height) w) False,
        MoveTo (Location (Point x_offset y_offset dispense_height) w) True,
        BlowOut None,
        MoveTo (Location (Point 0 0 dest_blowout_height) w) True] \<and>
   map_sum id commands
     (offset_dispense pipette (Well w) transfer_volume ''right'' (Some 1) dispense_height True
        dest_blowout_height False dispense_rate False st) =
     Inr (commands st @
       [MoveTo (Location (Point 0 0 dispense_height) w) False,
        MoveTo (Location (Point 1 0 dispense_height) w) True,
        Dispense transfer_volume None dispense_rate,
        MoveTo (Location (Point 0 0 dispense_height) w) True,
        MoveTo (Location (Point 0 0 dest_blowout_height) w) False,
        MoveTo (Location (Point 1 0 dispense_height) w) True,
        BlowOut None,
        MoveTo (Location (Point 0 0 dest_blowout_height) w) True])"
  by (simp add: offset_dispense_def direction_offsets_def dispense_motion_def Let_def bottom_def
      pipette_move_to_def pipette_dispense_def pipette_blow_out_def)

text \<open>
  C9. A serial dilution over a list of one well fails with the \<open>UnboundLocalError\<close> of the
  loop variable \<open>i\<close>, whatever its other arguments: the loop has no round, and the step that
  discards the extra volume reads \<open>i\<close> before anything is aspirated.
\<close>

theorem serial_dilution_single_well:
  "serial_dilution trash pipette transfer_volume mix_volume [w] mix_steps dispense_height
     blowout_height mix_before do_blowout always_get_new_tip st = Inl (UnboundLocalError ''i'')"
proof -
  obtain st1 where
    "mix_first_well mix_volume [w] mix_steps dispense_height blowout_height do_blowout
       (if \<not> has_tip st then pipette_pick_up_tip st else st) = Inr st1"
    using mix_first_well_single by blast
  then show ?thesis
    by (simp add: serial_dilution_def Let_def)
qed

text \<open>
  C10, as stated, fails where the height is not below the depth of the well: the assertion on
  the geometry comes before the lookup of the tip profile, so a pipette without a profile ends
  there in the assertion error, not in the error of the unassigned tip width.
\<close>

theorem unprofiled_pipette_counterexample:
  "name (p20\<lparr>name := ''p1000_single_gen2''\<rparr>) \<notin> {''p20_single_gen2'', ''p300_multi_gen2''} \<and>
   get_well_edge_offset (p20\<lparr>name := ''p1000_single_gen2''\<rparr>) (Well (assay_well ''A1'')) 12
     = Inl (AssertionError ''height_above_bottom is too high, pipette tip above well top'') \<and>
   get_well_edge_offset (p20\<lparr>name := ''p1000_single_gen2''\<rparr>) (Well (assay_well ''A1'')) 12
     \<noteq> Inl (UnboundLocalError ''PIPETTE_TIP_WIDTH'')"
  by (simp add: get_well_edge_offset_def Let_def p20_def assay_well_def grid_well_def)

text \<open>
  C10, amended. For a pipette whose model name is neither \<open>p20_single_gen2\<close> nor
  \<open>p300_multi_gen2\<close>, the edge offset never returns a value and never fails with a
  \<open>KeyError\<close>; for a well and a height below the depth of the well it fails with the
  \<open>UnboundLocalError\<close> of the tip width that was never assigned.
\<close>

theorem unprofiled_pipette_fails:
  "name pipette \<notin> {''p20_single_gen2'', ''p300_multi_gen2''} \<longrightarrow>
     (\<exists>e. get_well_edge_offset pipette well h = Inl e \<and> (\<forall>k. e \<noteq> KeyError k)) \<and>
     (h < depth w \<longrightarrow>
        get_well_edge_offset pipette (Well w) h = Inl (UnboundLocalError ''PIPETTE_TIP_WIDTH''))"
  by (cases well) (simp_all add: get_well_edge_offset_def Let_def tip_dict_def)

theorem unprofiled_pipette_fails_witness:
  "name (p20\<lparr>name := ''p1000_single_gen2''\<rparr>) \<notin> {''p20_single_gen2'', ''p300_multi_gen2''} \<and>
   (2::real) < depth (assay_well ''A1'') \<and>
   get_well_edge_offset (p20\<lparr>name := ''p1000_single_gen2''\<rparr>) (Well (assay_well ''A1'')) 2
     = Inl (UnboundLocalError ''PIPETTE_TIP_WIDTH'')"
proof -
  have n: "name (p20\<lparr>name := ''p1000_single_gen2''\<rparr>)
      \<notin> {''p20_single_gen2'', ''p300_multi_gen2''}"
    by simp
  have d: "(2::real) < depth (assay_well ''A1'')"
    by (simp add: assay_well_def grid_well_def)
  show ?thesis
    using n d
      unprofiled_pipette_fails [where pipette = "p20\<lparr>name := ''p1000_single_gen2''\<rparr>"
        and h = 2 and w = "assay_well ''A1''", rule_format, OF n, THEN conjunct2, rule_format, OF d]
    by simp
qed

end
